theory Spec2Isabelle
  imports Main "HOL-Library.Sublist"
begin

section \<open>JavaScript values and strings\<close>

text \<open>
  A JavaScript string is a sequence of UTF-16 code units; a code unit is modelled as a
  natural number. \<open>js\<close> turns an ASCII literal of the source into its code units.
\<close>

type_synonym jsstring = "nat list"

definition js :: "string \<Rightarrow> jsstring" where
  "js s = map of_char s"

text \<open>
  The values \<open>content\<close> can hold: the validator only asks whether the value is truthy,
  whether it is a string, and then uses it as a string.
\<close>

datatype jsvalue =
    JUndefined
  | JNull
  | JBoolean bool
  | JNumber int
  | JString jsstring
  | JObject

text \<open>The exceptions the built-in functions used by the validator can throw.\<close>

datatype jserror = URIError | TypeError

subsection \<open>String.prototype.trim\<close>

text \<open>
  \<open>trim\<close> removes leading and trailing WhiteSpace and LineTerminator code units
  (ECMAScript: TAB, VT, FF, SP, NBSP, ZWNBSP, the Unicode space separators, LF, CR, LS, PS).
\<close>

definition isWhiteSpace :: "nat \<Rightarrow> bool" where
  "isWhiteSpace c =
     (c = 9 \<or> c = 10 \<or> c = 11 \<or> c = 12 \<or> c = 13 \<or> c = 32 \<or> c = 160 \<or> c = 5760
      \<or> (8192 \<le> c \<and> c \<le> 8202) \<or> c = 8232 \<or> c = 8233 \<or> c = 8239 \<or> c = 8287
      \<or> c = 12288 \<or> c = 65279)"

definition trim :: "jsstring \<Rightarrow> jsstring" where
  "trim s = rev (dropWhile isWhiteSpace (rev (dropWhile isWhiteSpace s)))"

subsection \<open>decodeURIComponent\<close>

text \<open>
  The ECMAScript \<open>Decode\<close> operation with an empty set of preserved escapes: every
  \<open>%XX\<close> escape is replaced by the code point its UTF-8 octets encode; a truncated
  escape, a non-hexadecimal digit or an octet sequence that is not valid UTF-8 throws
  \<open>URIError\<close>.
\<close>

definition hexValue :: "nat \<Rightarrow> nat option" where
  "hexValue c =
     (if 48 \<le> c \<and> c \<le> 57 then Some (c - 48)
      else if 65 \<le> c \<and> c \<le> 70 then Some (c - 55)
      else if 97 \<le> c \<and> c \<le> 102 then Some (c - 87)
      else None)"

fun escapeByte :: "jsstring \<Rightarrow> nat option" where
  "escapeByte (p # h # l # rest) =
     (if p = 37 then
        (case hexValue h of
           None \<Rightarrow> None
         | Some a \<Rightarrow> (case hexValue l of None \<Rightarrow> None | Some b \<Rightarrow> Some (16 * a + b)))
      else None)"
| "escapeByte s = None"

definition leadingOnes :: "nat \<Rightarrow> nat" where
  "leadingOnes b =
     (if b < 128 then 0 else if b < 192 then 1 else if b < 224 then 2
      else if b < 240 then 3 else if b < 248 then 4 else 5)"

fun continuationBytes :: "nat \<Rightarrow> jsstring \<Rightarrow> nat list option" where
  "continuationBytes 0 s = Some []"
| "continuationBytes (Suc j) s =
     (case escapeByte s of
        None \<Rightarrow> None
      | Some b \<Rightarrow>
          (case continuationBytes j (drop 3 s) of None \<Rightarrow> None | Some bs \<Rightarrow> Some (b # bs)))"

definition isContinuation :: "nat \<Rightarrow> bool" where
  "isContinuation b = (128 \<le> b \<and> b < 192)"

definition utf8CodePoint :: "nat list \<Rightarrow> nat option" where
  "utf8CodePoint octets =
     (case octets of
        [b0, b1] \<Rightarrow>
          (let v = (b0 - 192) * 64 + (b1 - 128)
           in if isContinuation b1 \<and> 128 \<le> v then Some v else None)
      | [b0, b1, b2] \<Rightarrow>
          (let v = (b0 - 224) * 4096 + (b1 - 128) * 64 + (b2 - 128)
           in if isContinuation b1 \<and> isContinuation b2 \<and> 2048 \<le> v
                 \<and> \<not> (55296 \<le> v \<and> v \<le> 57343)
              then Some v else None)
      | [b0, b1, b2, b3] \<Rightarrow>
          (let v = (b0 - 240) * 262144 + (b1 - 128) * 4096 + (b2 - 128) * 64 + (b3 - 128)
           in if isContinuation b1 \<and> isContinuation b2 \<and> isContinuation b3
                 \<and> 65536 \<le> v \<and> v \<le> 1114111
              then Some v else None)
      | _ \<Rightarrow> None)"

definition utf16Encode :: "nat \<Rightarrow> jsstring" where
  "utf16Encode v =
     (if v < 65536 then [v]
      else [55296 + (v - 65536) div 1024, 56320 + (v - 65536) mod 1024])"

fun decodeURIComponent :: "jsstring \<Rightarrow> jserror + jsstring" where
  "decodeURIComponent [] = Inr []"
| "decodeURIComponent (c # cs) =
     (if c \<noteq> 37 then
        (case decodeURIComponent cs of Inl e \<Rightarrow> Inl e | Inr r \<Rightarrow> Inr (c # r))
      else
        (case escapeByte (c # cs) of
           None \<Rightarrow> Inl URIError
         | Some b \<Rightarrow>
             (if leadingOnes b = 0 then
                (case decodeURIComponent (drop 2 cs) of
                   Inl e \<Rightarrow> Inl e
                 | Inr r \<Rightarrow> Inr (b # r))
              else if leadingOnes b = 1 \<or> 4 < leadingOnes b then Inl URIError
              else
                (case continuationBytes (leadingOnes b - 1) (drop 2 cs) of
                   None \<Rightarrow> Inl URIError
                 | Some octets \<Rightarrow>
                     (case utf8CodePoint (b # octets) of
                        None \<Rightarrow> Inl URIError
                      | Some v \<Rightarrow>
                          (case decodeURIComponent (drop (2 + 3 * (leadingOnes b - 1)) cs) of
                             Inl e \<Rightarrow> Inl e
                           | Inr r \<Rightarrow> Inr (utf16Encode v @ r)))))))"

subsection \<open>The built-ins taken from the host\<close>

text \<open>
  \<open>String.prototype.toLowerCase\<close> (the Unicode case tables) and the \<open>URL\<close> constructor
  (the WHATWG URL parser) belong to the host, not to the repository: the validator is
  modelled over an arbitrary \<open>platform\<close> supplying them. Of a URL object the validator reads
  \<open>pathname\<close> and \<open>hostname\<close>; \<open>newURL\<close> returns \<open>Inl TypeError\<close> where the constructor
  throws.
\<close>

record url =
  pathname :: jsstring
  hostname :: jsstring

record platform =
  toLowerCase :: "jsstring \<Rightarrow> jsstring"
  newURL :: "jsstring \<Rightarrow> jserror + url"

subsection \<open>The regular expressions of the validator\<close>

text \<open>
  All patterns of the source are ASCII and carry the flag \<open>i\<close>: a pattern character
  matches a code unit exactly when the unit, with \<open>A\<close>-\<open>Z\<close> folded to \<open>a\<close>-\<open>z\<close>, equals
  it (without the flag \<open>u\<close> no code unit above 127 is canonicalised to an ASCII one).
\<close>

definition lowerAscii :: "nat \<Rightarrow> nat" where
  "lowerAscii c = (if 65 \<le> c \<and> c \<le> 90 then c + 32 else c)"

definition isAsciiLetter :: "nat \<Rightarrow> bool" where
  "isAsciiLetter c = ((65 \<le> c \<and> c \<le> 90) \<or> (97 \<le> c \<and> c \<le> 122))"

definition isAlnum :: "nat \<Rightarrow> bool" where
  "isAlnum c = (isAsciiLetter c \<or> (48 \<le> c \<and> c \<le> 57))"

text \<open>\<open>/^pat/i.test(s)\<close> for a literal pattern \<open>pat\<close> in lower case.\<close>

definition matchesAtStart :: "jsstring \<Rightarrow> jsstring \<Rightarrow> bool" where
  "matchesAtStart pat s = (map lowerAscii (take (length pat) s) = pat)"

text \<open>\<open>/^https?:\/\//i.test(decoded) || /^ftp:\/\//i.test(decoded)\<close>\<close>

definition isUrlLike :: "jsstring \<Rightarrow> bool" where
  "isUrlLike decoded =
     ((matchesAtStart (js ''http://'') decoded \<or> matchesAtStart (js ''https://'') decoded)
      \<or> matchesAtStart (js ''ftp://'') decoded)"

text \<open>\<open>/^(javascript:|data:|file:|vbscript:|about:|filesystem:)/i\<close>\<close>

definition unsafeSchemes :: "jsstring list" where
  "unsafeSchemes =
     map js [''javascript:'', ''data:'', ''file:'', ''vbscript:'', ''about:'', ''filesystem:'']"

definition unsafeProtocolPattern :: "jsstring \<Rightarrow> bool" where
  "unsafeProtocolPattern s = list_ex (\<lambda>p. matchesAtStart p s) unsafeSchemes"

text \<open>\<open>/^(ftp:|telnet:|ssh:|mms:|rtsp:|magnet:)/i\<close>\<close>

definition riskySchemes :: "jsstring list" where
  "riskySchemes = map js [''ftp:'', ''telnet:'', ''ssh:'', ''mms:'', ''rtsp:'', ''magnet:'']"

definition riskyProtocolPattern :: "jsstring \<Rightarrow> bool" where
  "riskyProtocolPattern s = list_ex (\<lambda>p. matchesAtStart p s) riskySchemes"

text \<open>
  \<open>/\.(exe|msi|bat|cmd|vbs|scr|dll|jar|apk|ps1|sh|aab)(?=[^a-z]|$)/i.test(decoded)\<close>:
  somewhere in the string a dot, one of the tokens, and then the end of the string or a
  code unit that is not an ASCII letter.
\<close>

definition hiddenTokens :: "jsstring list" where
  "hiddenTokens =
     map js [''exe'', ''msi'', ''bat'', ''cmd'', ''vbs'', ''scr'', ''dll'', ''jar'', ''apk'',
             ''ps1'', ''sh'', ''aab'']"

definition lookahead :: "jsstring \<Rightarrow> bool" where
  "lookahead s = (case s of [] \<Rightarrow> True | c # rest \<Rightarrow> \<not> isAsciiLetter c)"

fun hiddenExecutable :: "jsstring \<Rightarrow> bool" where
  "hiddenExecutable [] = False"
| "hiddenExecutable (c # cs) =
     ((c = 46
        \<and> list_ex (\<lambda>t. matchesAtStart t cs \<and> lookahead (drop (length t) cs)) hiddenTokens)
      \<or> hiddenExecutable cs)"

text \<open>
  \<open>s.match(/\.([a-z0-9]+)$/i)\<close>: the leftmost dot that is followed, up to the end of the
  string, by one or more ASCII letters or digits; the result is the captured group.
\<close>

fun extMatch :: "jsstring \<Rightarrow> jsstring option" where
  "extMatch [] = None"
| "extMatch (c # cs) =
     (if c = 46 \<and> cs \<noteq> [] \<and> list_all isAlnum cs then Some cs else extMatch cs)"

text \<open>\<open>s.split(/[?#]/)[0]\<close>: the part of the string before the first \<open>?\<close> or \<open>#\<close>.\<close>

definition splitFirst :: "jsstring \<Rightarrow> jsstring" where
  "splitFirst s = takeWhile (\<lambda>c. c \<noteq> 63 \<and> c \<noteq> 35) s"

section \<open>The input safety validator\<close>

record verdict =
  status :: jsstring
  reasonCode :: jsstring
  message :: jsstring

definition emDash :: jsstring where
  "emDash = [8212]"

text \<open>
  The multi-level decoding loop: at most three rounds of \<open>decodeURIComponent\<close>, left when
  a round changes nothing or throws.
\<close>

function decodeLoop :: "nat \<Rightarrow> jsstring \<Rightarrow> jsstring" where
  "decodeLoop i decoded =
     (if i < 3 then
        (case decodeURIComponent decoded of
           Inl e \<Rightarrow> decoded
         | Inr once \<Rightarrow> if once = decoded then decoded else decodeLoop (i + 1) once)
      else decoded)"
  by pat_completeness auto
termination
  by (relation "measure (\<lambda>(i, decoded). 3 - i)") auto

text \<open>
  The value of the variable \<open>decoded\<close> when the checks start: the content trimmed,
  lower-cased, decoded, and with its NUL code units removed.
\<close>

definition decodedOf :: "platform \<Rightarrow> jsstring \<Rightarrow> jsstring" where
  "decodedOf P content = filter (\<lambda>c. c \<noteq> 0) (decodeLoop 0 (toLowerCase P (trim content)))"

definition nonUrlTypes :: "jsstring list" where
  "nonUrlTypes =
     map js [''Text'', ''Wi-Fi'', ''Email'', ''vCard'', ''Phone'', ''SMS'', ''Event'', ''Geo'',
             ''UPI'', ''MECARD'']"

definition blockedExtensions :: "jsstring list" where
  "blockedExtensions =
     map js [''exe'', ''msi'', ''bat'', ''cmd'', ''vbs'', ''scr'', ''dll'', ''com'', ''jar'',
             ''ps1'', ''sh'', ''apk'', ''aab'', ''app'', ''dmg'', ''pkg'', ''deb'', ''rpm'',
             ''img'', ''bin'', ''crx'', ''xpi'']"

definition archiveExtensions :: "jsstring list" where
  "archiveExtensions =
     map js [''zip'', ''rar'', ''7z'', ''tar'', ''tgz'', ''tar.gz'', ''gz'', ''bz2'', ''xz'',
             ''iso'']"

definition macroEnabledDocs :: "jsstring list" where
  "macroEnabledDocs = map js [''docm'', ''xlsm'', ''pptm'']"

definition shortenerDomains :: "jsstring list" where
  "shortenerDomains =
     map js [''bit.ly'', ''t.co'', ''tinyurl.com'', ''goo.gl'', ''ow.ly'', ''buff.ly'',
             ''dlvr.it'', ''rebrand.ly'', ''cutt.ly'']"

text \<open>
  Section 5 of the source: the extension is taken from the path of the URL object, or,
  when the constructor throws, from the decoded string itself.
\<close>

definition extensionOf :: "platform \<Rightarrow> jsstring \<Rightarrow> jsstring" where
  "extensionOf P decoded =
     (case newURL P decoded of
        Inr urlObj \<Rightarrow>
          (let pathPart = splitFirst (toLowerCase P (pathname urlObj))
           in case extMatch pathPart of Some e \<Rightarrow> toLowerCase P e | None \<Rightarrow> [])
      | Inl err \<Rightarrow>
          (let noQuery = splitFirst decoded
           in case extMatch noQuery of Some e \<Rightarrow> toLowerCase P e | None \<Rightarrow> []))"

text \<open>
  Section 10 of the source: the \<open>try\<close> block with the Punycode and shortener checks. The
  result is the verdict the block returns, or \<open>None\<close> when control leaves the block
  (also through its empty \<open>catch\<close>).
\<close>

definition punycodeOrShortener :: "platform \<Rightarrow> jsstring \<Rightarrow> verdict option" where
  "punycodeOrShortener P decoded =
     (case newURL P decoded of
        Inl err \<Rightarrow> None
      | Inr urlObj \<Rightarrow>
          (let domain = toLowerCase P (hostname urlObj)
           in if prefix (js ''xn--'') domain then
                Some \<lparr>status = js ''warn'', reasonCode = js ''PUNYCODE_DOMAIN'',
                      message = js ''Caution '' @ emDash
                        @ js '' this domain uses internationalized (Punycode) characters. Verify that it belongs to a trusted source before sharing or scanning.''\<rparr>
              else if domain \<in> set shortenerDomains then
                Some \<lparr>status = js ''warn'', reasonCode = js ''SHORTENER'',
                      message = js ''Shortened URL detected ('' @ domain
                        @ js ''). Expand the link before generating a QR code.''\<rparr>
              else None))"

text \<open>The checks of sections 2 to 13, on the decoded string.\<close>

definition checkDecoded :: "platform \<Rightarrow> jsstring \<Rightarrow> jsstring \<Rightarrow> bool \<Rightarrow> verdict" where
  "checkDecoded P inputType decoded isVerifiedUser =
     (if inputType \<in> set nonUrlTypes then
        \<lparr>status = js ''ok'', reasonCode = js ''SAFE'',
         message = js ''Content type is non-URL and safe.''\<rparr>
      else if unsafeProtocolPattern decoded then
        \<lparr>status = js ''block'', reasonCode = js ''UNSAFE_PROTOCOL'',
         message = js ''Blocked '' @ emDash
           @ js '' unsafe URL scheme (javascript:, data:, file:, etc.) detected.''\<rparr>
      else if riskyProtocolPattern decoded then
        \<lparr>status = js ''warn'', reasonCode = js ''RISKY_PROTOCOL'',
         message = js ''Warning '' @ emDash
           @ js '' non-secure protocol detected (ftp, telnet, etc.).''\<rparr>
      else
        (let extension = extensionOf P decoded
         in if hiddenExecutable decoded then
              \<lparr>status = js ''block'', reasonCode = js ''EXECUTABLE_HIDDEN'',
               message = js ''Blocked '' @ emDash
                 @ js '' hidden executable signature detected in encoded or obfuscated URL.''\<rparr>
            else if extension \<in> set blockedExtensions then
              \<lparr>status = js ''block'', reasonCode = js ''EXECUTABLE'',
               message = js ''Blocked '' @ emDash
                 @ js '' executable or installable file type (.'' @ extension
                 @ js '') is not allowed for safety reasons.''\<rparr>
            else if extension \<in> set archiveExtensions then
              (if \<not> isVerifiedUser then
                 \<lparr>status = js ''block'', reasonCode = js ''ARCHIVE'',
                  message = js ''Archive file (.'' @ extension
                    @ js '') links are restricted to verified users for safety.''\<rparr>
               else
                 \<lparr>status = js ''warn'', reasonCode = js ''ARCHIVE'',
                  message = js ''Archive link detected (.'' @ extension
                    @ js ''). Proceed with caution and share only with trusted users.''\<rparr>)
            else if extension \<in> set macroEnabledDocs then
              \<lparr>status = js ''warn'', reasonCode = js ''MACRO_DOC'',
               message = js ''Macro-enabled document (.'' @ extension
                 @ js '') detected. These may contain embedded scripts. Verify file before sharing.''\<rparr>
            else
              (case punycodeOrShortener P decoded of
                 Some v \<Rightarrow> v
               | None \<Rightarrow>
                   if prefix (js ''http://'') decoded then
                     \<lparr>status = js ''warn'', reasonCode = js ''HTTP'',
                      message = js ''Warning '' @ emDash
                        @ js '' non-secure HTTP link detected. Use HTTPS whenever possible.''\<rparr>
                   else if isUrlLike decoded \<or> prefix (js ''https://'') decoded then
                     \<lparr>status = js ''ok'', reasonCode = js ''SAFE'',
                      message = js ''Looks good '' @ emDash
                        @ js '' this link appears safe for QR generation.''\<rparr>
                   else
                     \<lparr>status = js ''block'', reasonCode = js ''INVALID'',
                      message = js ''Invalid or unrecognized input. Please enter a valid URL or text.''\<rparr>)))"

text \<open>
  The exported function. Its first check is
  \<open>!content || typeof content !== "string" || !content.trim()\<close>: a value that is not a
  string satisfies one of the first two disjuncts, a string satisfies the check when it is
  empty or blank. Every call that can throw stands in a \<open>try\<close> whose \<open>catch\<close> goes on, so
  each path ends in a returned verdict (\<open>Inr\<close>).
\<close>

definition emptyVerdict :: verdict where
  "emptyVerdict =
     \<lparr>status = js ''block'', reasonCode = js ''EMPTY'',
      message = js ''Please enter content to generate a QR code.''\<rparr>"

fun validateInputSafety ::
  "platform \<Rightarrow> jsstring \<Rightarrow> jsvalue \<Rightarrow> bool \<Rightarrow> jserror + verdict" where
  "validateInputSafety P inputType (JString content) isVerifiedUser =
     (if content = [] \<or> trim content = [] then Inr emptyVerdict
      else Inr (checkDecoded P inputType (decodedOf P content) isVerifiedUser))"
| "validateInputSafety P inputType content isVerifiedUser = Inr emptyVerdict"

subsection \<open>The earlier variant\<close>

text \<open>
  The repository holds a second file that exports \<open>validateInputSafety\<close>, without the
  multi-level decoding, the hidden-executable pattern and the Punycode check. It decodes
  once and outside any \<open>try\<close>, so a malformed escape makes it throw; it tests the schemes,
  the shortener and the HTTP prefix on the lower-cased content (\<open>value\<close>) and takes the
  extension from the decoded content. It is modelled as \<open>validateInputSafetyBasic\<close>.
\<close>

text \<open>Its shortener check: the host name of \<open>new URL(value)\<close> with a leading \<open>www.\<close> removed
  (\<open>hostname.replace(/^www\./, "")\<close>).\<close>

definition basicShortener :: "platform \<Rightarrow> jsstring \<Rightarrow> verdict option" where
  "basicShortener P value =
     (case newURL P value of
        Inl err \<Rightarrow> None
      | Inr urlObj \<Rightarrow>
          (let domain = (if prefix (js ''www.'') (hostname urlObj)
                         then drop 4 (hostname urlObj) else hostname urlObj)
           in if domain \<in> set shortenerDomains then
                Some \<lparr>status = js ''warn'', reasonCode = js ''SHORTENER'',
                      message = js ''Shortened URL detected ('' @ domain
                        @ js ''). Expand the link before generating a QR code.''\<rparr>
              else None))"

definition basicChecks ::
  "platform \<Rightarrow> jsstring \<Rightarrow> jsstring \<Rightarrow> jsstring \<Rightarrow> bool \<Rightarrow> verdict" where
  "basicChecks P inputType value decoded isVerifiedUser =
     (if inputType \<in> set nonUrlTypes then
        \<lparr>status = js ''ok'', reasonCode = js ''SAFE'',
         message = js ''Content type is non-URL and safe.''\<rparr>
      else if unsafeProtocolPattern value then
        \<lparr>status = js ''block'', reasonCode = js ''UNSAFE_PROTOCOL'',
         message = js ''Blocked '' @ emDash
           @ js '' unsafe URL scheme (javascript:, data:, file:, etc.) detected.''\<rparr>
      else if riskyProtocolPattern value then
        \<lparr>status = js ''warn'', reasonCode = js ''RISKY_PROTOCOL'',
         message = js ''Warning '' @ emDash
           @ js '' non-secure protocol detected (ftp, telnet, etc.).''\<rparr>
      else
        (let noQuery = splitFirst decoded;
             extension = (case extMatch noQuery of Some e \<Rightarrow> toLowerCase P e | None \<Rightarrow> [])
         in if extension \<in> set blockedExtensions then
              \<lparr>status = js ''block'', reasonCode = js ''EXECUTABLE'',
               message = js ''Blocked '' @ emDash
                 @ js '' executable or installable file type (.'' @ extension
                 @ js '') is not allowed for safety reasons.''\<rparr>
            else if extension \<in> set archiveExtensions then
              (if \<not> isVerifiedUser then
                 \<lparr>status = js ''block'', reasonCode = js ''ARCHIVE'',
                  message = js ''Archive file (.'' @ extension
                    @ js '') links are restricted to verified users for safety.''\<rparr>
               else
                 \<lparr>status = js ''warn'', reasonCode = js ''ARCHIVE'',
                  message = js ''Archive link detected (.'' @ extension
                    @ js ''). Proceed with caution and share only with trusted users.''\<rparr>)
            else if extension \<in> set macroEnabledDocs then
              \<lparr>status = js ''warn'', reasonCode = js ''MACRO_DOC'',
               message = js ''Macro-enabled document (.'' @ extension
                 @ js '') detected. These may contain embedded scripts. Verify file before sharing.''\<rparr>
            else
              (case basicShortener P value of
                 Some v \<Rightarrow> v
               | None \<Rightarrow>
                   if prefix (js ''http://'') value then
                     \<lparr>status = js ''warn'', reasonCode = js ''HTTP'',
                      message = js ''Warning '' @ emDash
                        @ js '' non-secure HTTP link detected. Use HTTPS whenever possible.''\<rparr>
                   else if isUrlLike value \<or> prefix (js ''https://'') value then
                     \<lparr>status = js ''ok'', reasonCode = js ''SAFE'',
                      message = js ''Looks good '' @ emDash
                        @ js '' this link appears safe for QR generation.''\<rparr>
                   else
                     \<lparr>status = js ''block'', reasonCode = js ''INVALID'',
                      message = js ''Invalid or unrecognized input. Please enter a valid URL or text.''\<rparr>)))"

fun validateInputSafetyBasic ::
  "platform \<Rightarrow> jsstring \<Rightarrow> jsvalue \<Rightarrow> bool \<Rightarrow> jserror + verdict" where
  "validateInputSafetyBasic P inputType (JString content) isVerifiedUser =
     (if content = [] \<or> trim content = [] then Inr emptyVerdict
      else
        (let value = toLowerCase P (trim content)
         in case decodeURIComponent value of
              Inl err \<Rightarrow> Inl err
            | Inr decoded \<Rightarrow> Inr (basicChecks P inputType value decoded isVerifiedUser)))"
| "validateInputSafetyBasic P inputType content isVerifiedUser = Inr emptyVerdict"

section \<open>A reference platform for evaluating concrete calls\<close>

text \<open>
  The theorems below that speak of every input hold for every \<open>platform\<close>. To evaluate
  the validator at a concrete call, \<open>stdPlatform\<close> supplies the two built-ins on the part
  of their domain that can be written down here:
  \<^item> \<open>asciiToLowerCase\<close> folds \<open>A\<close>-\<open>Z\<close> and leaves every other code unit alone; it is
    \<open>toLowerCase\<close> on strings of ASCII code units.
  \<^item> \<open>parseURL\<close> follows the WHATWG basic URL parser (no base URL) for the special
    schemes \<open>http\<close>, \<open>https\<close>, \<open>ws\<close>, \<open>wss\<close> and \<open>ftp\<close>: leading and trailing C0 control
    or space removed, ASCII tab and newline removed everywhere, the scheme, the slashes,
    the authority (credentials dropped, port checked), the path state with its dot
    segments and percent-encoding (the path percent-encode set of the current standard).
    Hosts are handled when they are ASCII domains: lower-cased and checked for forbidden
    code points, a label that begins with \<open>xn--\<close> taken to be valid Punycode. For a host
    that needs IDNA processing, percent-decoding or the IPv4/IPv6 parsers, and for the
    \<open>file\<close> and the non-special schemes, \<open>parseURL\<close> answers \<open>Inl TypeError\<close> although the
    constructor may succeed. It is used at inputs inside the modelled part only.
\<close>

definition asciiToLowerCase :: "jsstring \<Rightarrow> jsstring" where
  "asciiToLowerCase s = map lowerAscii s"

text \<open>The constructor converts its argument to scalar values: surrogate pairs are joined,
  a lone surrogate becomes U+FFFD.\<close>

fun scalarValues :: "jsstring \<Rightarrow> nat list" where
  "scalarValues [] = []"
| "scalarValues [c] = [if 55296 \<le> c \<and> c \<le> 57343 then 65533 else c]"
| "scalarValues (c # d # rest) =
     (if 55296 \<le> c \<and> c \<le> 56319 \<and> 56320 \<le> d \<and> d \<le> 57343
      then (65536 + (c - 55296) * 1024 + (d - 56320)) # scalarValues rest
      else (if 55296 \<le> c \<and> c \<le> 57343 then 65533 else c) # scalarValues (d # rest))"

definition isC0ControlOrSpace :: "nat \<Rightarrow> bool" where
  "isC0ControlOrSpace c = (c \<le> 32)"

definition isTabOrNewline :: "nat \<Rightarrow> bool" where
  "isTabOrNewline c = (c = 9 \<or> c = 10 \<or> c = 13)"

definition cleanInput :: "nat list \<Rightarrow> nat list" where
  "cleanInput s =
     filter (\<lambda>c. \<not> isTabOrNewline c)
       (rev (dropWhile isC0ControlOrSpace (rev (dropWhile isC0ControlOrSpace s))))"

definition isSchemeChar :: "nat \<Rightarrow> bool" where
  "isSchemeChar c = (isAlnum c \<or> c = 43 \<or> c = 45 \<or> c = 46)"

text \<open>Scheme start state and scheme state: the lower-cased scheme and what follows the
  colon, or \<open>None\<close> where the parser fails for want of a scheme.\<close>

definition parseScheme :: "nat list \<Rightarrow> (nat list \<times> nat list) option" where
  "parseScheme s =
     (case s of
        [] \<Rightarrow> None
      | c # cs \<Rightarrow>
          if isAsciiLetter c then
            (case dropWhile isSchemeChar s of
               [] \<Rightarrow> None
             | d # rest \<Rightarrow>
                 if d = 58 then Some (map lowerAscii (takeWhile isSchemeChar s), rest)
                 else None)
          else None)"

definition specialSchemes :: "jsstring list" where
  "specialSchemes = map js [''http'', ''https'', ''ws'', ''wss'', ''ftp'']"

definition isSlash :: "nat \<Rightarrow> bool" where
  "isSlash c = (c = 47 \<or> c = 92)"

definition endsAuthority :: "nat \<Rightarrow> bool" where
  "endsAuthority c = (c = 47 \<or> c = 92 \<or> c = 63 \<or> c = 35)"

text \<open>The host parser on ASCII domains.\<close>

definition isForbiddenDomainCodePoint :: "nat \<Rightarrow> bool" where
  "isForbiddenDomainCodePoint c =
     (c \<le> 32 \<or> c = 35 \<or> c = 37 \<or> c = 47 \<or> c = 58 \<or> c = 60 \<or> c = 62 \<or> c = 63 \<or> c = 64
      \<or> c = 91 \<or> c = 92 \<or> c = 93 \<or> c = 94 \<or> c = 124 \<or> c = 127)"

definition lastLabel :: "nat list \<Rightarrow> nat list" where
  "lastLabel host =
     (let h = (if host \<noteq> [] \<and> last host = 46 then butlast host else host)
      in rev (takeWhile (\<lambda>c. c \<noteq> 46) (rev h)))"

definition isDigit :: "nat \<Rightarrow> bool" where
  "isDigit c = (48 \<le> c \<and> c \<le> 57)"

definition endsInNumber :: "nat list \<Rightarrow> bool" where
  "endsInNumber host =
     (let l = lastLabel host
      in (l \<noteq> [] \<and> list_all isDigit l)
         \<or> (case l of
               z # x # digits \<Rightarrow>
                 z = 48 \<and> (x = 120 \<or> x = 88) \<and> list_all (\<lambda>c. hexValue c \<noteq> None) digits
             | _ \<Rightarrow> False))"

definition parseHost :: "nat list \<Rightarrow> jsstring option" where
  "parseHost host =
     (if host = [] \<or> list_ex (\<lambda>c. 127 < c) host \<or> list_ex isForbiddenDomainCodePoint host
         \<or> endsInNumber host
      then None
      else Some (map lowerAscii host))"

definition decimalValue :: "nat list \<Rightarrow> nat" where
  "decimalValue digits = foldl (\<lambda>n d. 10 * n + (d - 48)) 0 digits"

text \<open>The port state: only digits up to the end of the authority, and a value of at most
  65535.\<close>

definition portOk :: "nat list \<Rightarrow> bool" where
  "portOk afterHost =
     (case afterHost of
        [] \<Rightarrow> True
      | colon # digits \<Rightarrow> list_all isDigit digits \<and> decimalValue digits \<le> 65535)"

text \<open>UTF-8 percent-encoding with the path percent-encode set.\<close>

definition inPathPercentEncodeSet :: "nat \<Rightarrow> bool" where
  "inPathPercentEncodeSet c =
     (c \<le> 32 \<or> 126 < c \<or> c = 34 \<or> c = 35 \<or> c = 60 \<or> c = 62 \<or> c = 63 \<or> c = 94 \<or> c = 96
      \<or> c = 123 \<or> c = 125)"

definition utf8Encode :: "nat \<Rightarrow> nat list" where
  "utf8Encode v =
     (if v < 128 then [v]
      else if v < 2048 then [192 + v div 64, 128 + v mod 64]
      else if v < 65536 then [224 + v div 4096, 128 + (v div 64) mod 64, 128 + v mod 64]
      else [240 + v div 262144, 128 + (v div 4096) mod 64, 128 + (v div 64) mod 64,
            128 + v mod 64])"

definition hexDigit :: "nat \<Rightarrow> nat" where
  "hexDigit d = (if d < 10 then 48 + d else 55 + d)"

definition percentEncodeByte :: "nat \<Rightarrow> jsstring" where
  "percentEncodeByte b = [37, hexDigit (b div 16), hexDigit (b mod 16)]"

definition percentEncodePath :: "nat \<Rightarrow> jsstring" where
  "percentEncodePath c =
     (if inPathPercentEncodeSet c then concat (map percentEncodeByte (utf8Encode c)) else [c])"

definition isSingleDot :: "jsstring \<Rightarrow> bool" where
  "isSingleDot buffer = (map lowerAscii buffer \<in> set (map js [''.'', ''%2e'']))"

definition isDoubleDot :: "jsstring \<Rightarrow> bool" where
  "isDoubleDot buffer =
     (map lowerAscii buffer \<in> set (map js [''..'', ''.%2e'', ''%2e.'', ''%2e%2e'']))"

text \<open>What the path state does with the buffer at the end of a segment; \<open>atSlash\<close> tells
  whether the segment was ended by a slash (or backslash) rather than by the end of the
  path.\<close>

definition endSegment :: "jsstring list \<Rightarrow> jsstring \<Rightarrow> bool \<Rightarrow> jsstring list" where
  "endSegment path buffer atSlash =
     (if isDoubleDot buffer then butlast path @ (if atSlash then [] else [[]])
      else if isSingleDot buffer then path @ (if atSlash then [] else [[]])
      else path @ [buffer])"

fun pathState :: "jsstring list \<Rightarrow> jsstring \<Rightarrow> nat list \<Rightarrow> jsstring list" where
  "pathState path buffer [] = endSegment path buffer False"
| "pathState path buffer (c # cs) =
     (if isSlash c then pathState (endSegment path buffer True) [] cs
      else pathState path (buffer @ percentEncodePath c) cs)"

definition serializePath :: "jsstring list \<Rightarrow> jsstring" where
  "serializePath path = concat (map (\<lambda>segment. 47 # segment) path)"

definition parseURL :: "jsstring \<Rightarrow> jserror + url" where
  "parseURL input =
     (case parseScheme (cleanInput (scalarValues input)) of
        None \<Rightarrow> Inl TypeError
      | Some (scheme, afterScheme) \<Rightarrow>
          if scheme \<notin> set specialSchemes then Inl TypeError
          else
            (let rest = dropWhile isSlash afterScheme;
                 authority = takeWhile (\<lambda>c. \<not> endsAuthority c) rest;
                 afterAuthority = dropWhile (\<lambda>c. \<not> endsAuthority c) rest;
                 hostPort = rev (takeWhile (\<lambda>c. c \<noteq> 64) (rev authority));
                 host = takeWhile (\<lambda>c. c \<noteq> 58) hostPort;
                 afterHost = dropWhile (\<lambda>c. c \<noteq> 58) hostPort;
                 pathInput = takeWhile (\<lambda>c. c \<noteq> 63 \<and> c \<noteq> 35) afterAuthority
             in case parseHost host of
                  None \<Rightarrow> Inl TypeError
                | Some domain \<Rightarrow>
                    if \<not> portOk afterHost then Inl TypeError
                    else
                      Inr \<lparr>pathname =
                             serializePath
                               (pathState [] []
                                  (case pathInput of
                                     [] \<Rightarrow> []
                                   | c # cs \<Rightarrow> if isSlash c then cs else pathInput)),
                           hostname = domain\<rparr>))"

definition stdPlatform :: platform where
  "stdPlatform = \<lparr>toLowerCase = asciiToLowerCase, newURL = parseURL\<rparr>"

section \<open>Predicates used in the statements\<close>

text \<open>\<open>returns r st rc\<close>: the call returned (it did not throw) a verdict with status \<open>st\<close>
  and reason code \<open>rc\<close>.\<close>

definition returns :: "jserror + verdict \<Rightarrow> string \<Rightarrow> string \<Rightarrow> bool" where
  "returns r st rc =
     (case r of Inl e \<Rightarrow> False | Inr v \<Rightarrow> status v = js st \<and> reasonCode v = js rc)"

text \<open>The pairs of status and reason code that occur in the \<open>return\<close> statements of the
  source.\<close>

definition verdictCodes :: "(jsstring \<times> jsstring) list" where
  "verdictCodes =
     map (\<lambda>(st, rc). (js st, js rc))
       [(''block'', ''EMPTY''), (''ok'', ''SAFE''), (''block'', ''UNSAFE_PROTOCOL''),
        (''warn'', ''RISKY_PROTOCOL''), (''block'', ''EXECUTABLE_HIDDEN''),
        (''block'', ''EXECUTABLE''), (''block'', ''ARCHIVE''), (''warn'', ''ARCHIVE''),
        (''warn'', ''MACRO_DOC''), (''warn'', ''PUNYCODE_DOMAIN''), (''warn'', ''SHORTENER''),
        (''warn'', ''HTTP''), (''block'', ''INVALID'')]"

definition listed :: "verdict \<Rightarrow> bool" where
  "listed v = ((status v, reasonCode v) \<in> set verdictCodes \<and> message v \<noteq> [])"

text \<open>The content is missing, not a string, or blank after trimming.\<close>

definition missingOrBlank :: "jsvalue \<Rightarrow> bool" where
  "missingOrBlank content = (case content of JString s \<Rightarrow> trim s = [] | _ \<Rightarrow> True)"

text \<open>
  Facts about \<open>toLowerCase\<close> that statements below assume of the platform. On a string of
  ASCII code units it folds \<open>A\<close>-\<open>Z\<close> and changes nothing else (\<open>asciiLowering\<close>); lower-casing
  twice is lower-casing once, white space at the ends is neither created nor removed, and
  only the empty string becomes empty (\<open>lowerCaseLaws\<close>).
\<close>

definition asciiLowering :: "platform \<Rightarrow> bool" where
  "asciiLowering P = (\<forall>s. list_all (\<lambda>c. c < 128) s \<longrightarrow> toLowerCase P s = map lowerAscii s)"

definition lowerCaseLaws :: "platform \<Rightarrow> bool" where
  "lowerCaseLaws P =
     ((\<forall>s. toLowerCase P (toLowerCase P s) = toLowerCase P s)
      \<and> (\<forall>s. trim (toLowerCase P s) = toLowerCase P (trim s))
      \<and> (\<forall>s. (toLowerCase P s = []) = (s = [])))"

text \<open>
  \<open>pathEndKept P d front pre raw post\<close>: where the URL constructor accepts \<open>d\<close>, the
  lower-cased path name up to its first \<open>?\<close> or \<open>#\<close> (the source's \<open>pathPart\<close>) is
  \<open>front\<close> followed by an end that holds its last dot, and this end is, up to the case of
  ASCII letters, the part \<open>raw\<close> of \<open>d = pre @ raw @ post\<close>, where \<open>post\<close> is empty or starts
  with a code unit that is not an ASCII letter. What the parser made of the path before
  that end is not asked. Where the constructor throws nothing is asked: the extension is
  then taken from \<open>d\<close> itself.
\<close>

definition pathEndKept ::
  "platform \<Rightarrow> jsstring \<Rightarrow> jsstring \<Rightarrow> jsstring \<Rightarrow> jsstring \<Rightarrow> jsstring \<Rightarrow> bool" where
  "pathEndKept P d front pre raw post =
     (case newURL P d of
        Inl err \<Rightarrow> True
      | Inr urlObj \<Rightarrow>
          d = pre @ raw @ post
          \<and> splitFirst (toLowerCase P (pathname urlObj)) = front @ map lowerAscii raw
          \<and> (46 \<in> set raw \<or> 46 \<notin> set front)
          \<and> lookahead post)"

text \<open>The blocked extensions that are not tokens of the hidden-executable pattern.\<close>

definition cleanOnlyExtensions :: "jsstring list" where
  "cleanOnlyExtensions =
     map js [''com'', ''app'', ''dmg'', ''pkg'', ''deb'', ''rpm'', ''img'', ''bin'', ''crx'', ''xpi'']"

section \<open>Auxiliary facts\<close>

lemma js_eq_iff [simp]: "js a = js b \<longleftrightarrow> a = b"
  unfolding js_def by (rule inj_map_eq_map) (rule inj_of_char)

lemma js_Nil_iff [simp]: "js a = [] \<longleftrightarrow> a = []" "[] = js a \<longleftrightarrow> a = []"
  unfolding js_def by auto

lemma trim_Nil [simp]: "trim [] = []"
  by (simp add: trim_def)

lemma listed_literal:
  "listed \<lparr>status = s, reasonCode = r, message = m\<rparr>
     = ((s, r) \<in> set verdictCodes \<and> m \<noteq> [])"
  by (simp add: listed_def)

lemma punycodeOrShortener_listed: "punycodeOrShortener P d = Some v \<Longrightarrow> listed v"
  by (auto simp: punycodeOrShortener_def Let_def listed_literal verdictCodes_def
      split: sum.splits if_splits)

lemma checkDecoded_listed: "listed (checkDecoded P t d b)"
proof (cases "punycodeOrShortener P d")
  case None
  then show ?thesis
    unfolding checkDecoded_def Let_def by (simp add: listed_literal verdictCodes_def)
next
  case (Some v)
  from punycodeOrShortener_listed[OF this] Some show ?thesis
    unfolding checkDecoded_def Let_def by (simp add: listed_literal verdictCodes_def)
qed

lemma validateInputSafety_nonblank:
  "trim content \<noteq> [] \<Longrightarrow>
   validateInputSafety P inputType (JString content) isVerifiedUser =
     Inr (checkDecoded P inputType (decodedOf P content) isVerifiedUser)"
  by (cases "content = []") auto

lemma validateInputSafety_cases:
  "validateInputSafety P inputType content isVerifiedUser = Inr emptyVerdict
   \<or> (\<exists>s. content = JString s \<and> trim s \<noteq> [] \<and>
        validateInputSafety P inputType content isVerifiedUser =
          Inr (checkDecoded P inputType (decodedOf P s) isVerifiedUser))"
  by (cases content) auto

lemma validateInputSafety_listed:
  "\<exists>v. validateInputSafety P inputType content isVerifiedUser = Inr v \<and> listed v"
  using validateInputSafety_cases[of P inputType content isVerifiedUser] checkDecoded_listed
  by (auto simp: emptyVerdict_def listed_literal verdictCodes_def)

lemma returns_Inr: "returns (Inr v) st rc = (status v = js st \<and> reasonCode v = js rc)"
  by (simp add: returns_def)

declare validateInputSafety.simps [simp del]

declare decodeLoop.simps [simp del]

lemma returns_nonblank:
  "trim content \<noteq> [] \<Longrightarrow>
     returns (validateInputSafety P inputType (JString content) isVerifiedUser) st rc
     = (status (checkDecoded P inputType (decodedOf P content) isVerifiedUser) = js st
        \<and> reasonCode (checkDecoded P inputType (decodedOf P content) isVerifiedUser) = js rc)"
  by (simp add: validateInputSafety_nonblank returns_Inr)

subsection \<open>Decoding a string without escapes\<close>

lemma decodeURIComponent_plain: "37 \<notin> set s \<Longrightarrow> decodeURIComponent s = Inr s"
  by (induction s) auto

lemma decodeLoop_fixed: "decodeURIComponent d = Inr d \<Longrightarrow> decodeLoop i d = d"
  by (subst decodeLoop.simps) simp

lemma decodeLoop_throws: "decodeURIComponent d = Inl e \<Longrightarrow> decodeLoop i d = d"
  by (subst decodeLoop.simps) simp

lemma decodedOf_plain:
  "37 \<notin> set (toLowerCase P (trim content)) \<Longrightarrow>
     decodedOf P content = filter (\<lambda>c. c \<noteq> 0) (toLowerCase P (trim content))"
  by (simp add: decodedOf_def decodeLoop_fixed decodeURIComponent_plain)

lemma asciiLowering_apply:
  "asciiLowering P \<Longrightarrow> list_all (\<lambda>c. c < 128) s \<Longrightarrow> toLowerCase P s = map lowerAscii s"
  by (simp add: asciiLowering_def)

lemma percent_lowerAscii: "(37 \<in> set (map lowerAscii s)) = (37 \<in> set s)"
  by (induction s) (auto simp: lowerAscii_def)

lemma decodedOf_ascii_plain:
  assumes "asciiLowering P" and "list_all (\<lambda>c. c < 128) (trim content)"
    and "37 \<notin> set (trim content)"
  shows "decodedOf P content = filter (\<lambda>c. c \<noteq> 0) (map lowerAscii (trim content))"
proof -
  have l: "toLowerCase P (trim content) = map lowerAscii (trim content)"
    using assms(1,2) by (rule asciiLowering_apply)
  have "37 \<notin> set (map lowerAscii (trim content))"
    using assms(3) by (simp only: percent_lowerAscii not_False_eq_True)
  then show ?thesis
    using decodedOf_plain[of P content] by (simp add: l)
qed

subsection \<open>The reference platform\<close>

lemma std_simps [simp]:
  "toLowerCase stdPlatform = asciiToLowerCase" "newURL stdPlatform = parseURL"
  by (simp_all add: stdPlatform_def)

lemma asciiLowering_std: "asciiLowering stdPlatform"
  by (simp add: asciiLowering_def asciiToLowerCase_def)

lemmas rx_defs = matchesAtStart_def unsafeProtocolPattern_def unsafeSchemes_def
  riskyProtocolPattern_def riskySchemes_def hiddenTokens_def lookahead_def isUrlLike_def
  splitFirst_def

lemmas url_defs = parseURL_def parseScheme_def cleanInput_def isC0ControlOrSpace_def
  isTabOrNewline_def isSchemeChar_def isAlnum_def isAsciiLetter_def lowerAscii_def
  specialSchemes_def isSlash_def endsAuthority_def parseHost_def isForbiddenDomainCodePoint_def
  endsInNumber_def lastLabel_def isDigit_def portOk_def decimalValue_def serializePath_def
  endSegment_def isSingleDot_def isDoubleDot_def percentEncodePath_def
  inPathPercentEncodeSet_def hexValue_def

subsection \<open>The rule chain, one rule at a time\<close>

lemma checkDecoded_nonUrl:
  "inputType \<in> set nonUrlTypes \<Longrightarrow>
   checkDecoded P inputType d b =
     \<lparr>status = js ''ok'', reasonCode = js ''SAFE'',
      message = js ''Content type is non-URL and safe.''\<rparr>"
  by (simp add: checkDecoded_def)

lemma checkDecoded_unsafe:
  "inputType \<notin> set nonUrlTypes \<Longrightarrow> unsafeProtocolPattern d \<Longrightarrow>
   checkDecoded P inputType d b =
     \<lparr>status = js ''block'', reasonCode = js ''UNSAFE_PROTOCOL'',
      message = js ''Blocked '' @ emDash
        @ js '' unsafe URL scheme (javascript:, data:, file:, etc.) detected.''\<rparr>"
  by (simp add: checkDecoded_def)

lemma checkDecoded_hidden:
  "inputType \<notin> set nonUrlTypes \<Longrightarrow> \<not> unsafeProtocolPattern d \<Longrightarrow>
   \<not> riskyProtocolPattern d \<Longrightarrow> hiddenExecutable d \<Longrightarrow>
   checkDecoded P inputType d b =
     \<lparr>status = js ''block'', reasonCode = js ''EXECUTABLE_HIDDEN'',
      message = js ''Blocked '' @ emDash
        @ js '' hidden executable signature detected in encoded or obfuscated URL.''\<rparr>"
  by (simp add: checkDecoded_def Let_def)

lemma checkDecoded_executable:
  "inputType \<notin> set nonUrlTypes \<Longrightarrow> \<not> unsafeProtocolPattern d \<Longrightarrow>
   \<not> riskyProtocolPattern d \<Longrightarrow> \<not> hiddenExecutable d \<Longrightarrow>
   extensionOf P d \<in> set blockedExtensions \<Longrightarrow>
   checkDecoded P inputType d b =
     \<lparr>status = js ''block'', reasonCode = js ''EXECUTABLE'',
      message = js ''Blocked '' @ emDash
        @ js '' executable or installable file type (.'' @ extensionOf P d
        @ js '') is not allowed for safety reasons.''\<rparr>"
  by (simp add: checkDecoded_def Let_def)

lemma checkDecoded_archive:
  "inputType \<notin> set nonUrlTypes \<Longrightarrow> \<not> unsafeProtocolPattern d \<Longrightarrow>
   \<not> riskyProtocolPattern d \<Longrightarrow> \<not> hiddenExecutable d \<Longrightarrow>
   extensionOf P d \<notin> set blockedExtensions \<Longrightarrow> extensionOf P d \<in> set archiveExtensions \<Longrightarrow>
   checkDecoded P inputType d b =
     (if \<not> b then
        \<lparr>status = js ''block'', reasonCode = js ''ARCHIVE'',
         message = js ''Archive file (.'' @ extensionOf P d
           @ js '') links are restricted to verified users for safety.''\<rparr>
      else
        \<lparr>status = js ''warn'', reasonCode = js ''ARCHIVE'',
         message = js ''Archive link detected (.'' @ extensionOf P d
           @ js ''). Proceed with caution and share only with trusted users.''\<rparr>)"
  by (simp add: checkDecoded_def Let_def)

lemma checkDecoded_late:
  "inputType \<notin> set nonUrlTypes \<Longrightarrow> \<not> unsafeProtocolPattern d \<Longrightarrow>
   \<not> riskyProtocolPattern d \<Longrightarrow> \<not> hiddenExecutable d \<Longrightarrow>
   extensionOf P d \<notin> set blockedExtensions \<Longrightarrow> extensionOf P d \<notin> set archiveExtensions \<Longrightarrow>
   extensionOf P d \<notin> set macroEnabledDocs \<Longrightarrow> punycodeOrShortener P d = Some v \<Longrightarrow>
   checkDecoded P inputType d b = v"
  by (simp add: checkDecoded_def Let_def)

lemma url_not_nonUrl: "js ''URL'' \<notin> set nonUrlTypes"
  by (simp add: nonUrlTypes_def)

subsection \<open>Concrete inputs\<close>

lemma decodedOf_literal:
  assumes "asciiLowering P" and "trim s = s"
    and "list_all (\<lambda>c. c < 128 \<and> c \<noteq> 37 \<and> c \<noteq> 0 \<and> \<not> (65 \<le> c \<and> c \<le> 90)) s"
  shows "decodedOf P s = s"
proof -
  have a: "list_all (\<lambda>c. c < 128) (trim s)"
    using assms(2,3) by (simp add: list_all_iff)
  have p: "37 \<notin> set (trim s)"
    using assms(2,3) by (auto simp: list_all_iff)
  have m: "map lowerAscii s = s"
    using assms(3) by (induction s) (auto simp: lowerAscii_def)
  have z: "filter (\<lambda>c. c \<noteq> 0) s = s"
    using assms(3) by (induction s) auto
  have "decodedOf P s = filter (\<lambda>c. c \<noteq> 0) (map lowerAscii (trim s))"
    by (rule decodedOf_ascii_plain[OF assms(1) a p])
  also have "\<dots> = s"
    by (simp only: assms(2) m z)
  finally show ?thesis .
qed

lemmas lit_defs = js_def trim_def isWhiteSpace_def

lemma exe_trim: "trim (js ''https://example.com/installer.exe'') = js ''https://example.com/installer.exe''"
  by (simp add: lit_defs)

lemma exe_decoded:
  "asciiLowering P \<Longrightarrow>
     decodedOf P (js ''https://example.com/installer.exe'') = js ''https://example.com/installer.exe''"
  by (rule decodedOf_literal) (simp_all add: exe_trim, simp add: js_def)

lemma exe_hidden: "hiddenExecutable (js ''https://example.com/installer.exe'')"
  by (simp add: js_def rx_defs lowerAscii_def isAsciiLetter_def)

lemma exe_not_unsafe: "\<not> unsafeProtocolPattern (js ''https://example.com/installer.exe'')"
  by (simp add: js_def rx_defs lowerAscii_def)

lemma exe_not_risky: "\<not> riskyProtocolPattern (js ''https://example.com/installer.exe'')"
  by (simp add: js_def rx_defs lowerAscii_def)

lemma exe_verdict:
  assumes "asciiLowering P"
  shows "validateInputSafety P (js ''URL'') (JString (js ''https://example.com/installer.exe'')) b =
     Inr \<lparr>status = js ''block'', reasonCode = js ''EXECUTABLE_HIDDEN'',
          message = js ''Blocked '' @ emDash
            @ js '' hidden executable signature detected in encoded or obfuscated URL.''\<rparr>"
proof -
  have "trim (js ''https://example.com/installer.exe'') \<noteq> []"
    by (simp add: exe_trim)
  then show ?thesis
    by (simp add: validateInputSafety_nonblank exe_decoded[OF assms]
        checkDecoded_hidden[OF url_not_nonUrl exe_not_unsafe exe_not_risky exe_hidden])
qed

lemma js_alert_trim: "trim (js ''javascript:alert(1)'') = js ''javascript:alert(1)''"
  by (simp add: lit_defs)


lemma decode_malformed: "decodeURIComponent (js ''%zz'') = Inl URIError"
  by (simp add: js_def hexValue_def)

lemma parse_malformed: "parseURL (js ''%zz'') = Inl TypeError"
  by (simp add: js_def url_defs)



lemma bitly_trim: "trim (js ''http://bit.ly/abc'') = js ''http://bit.ly/abc''"
  by (simp add: lit_defs)

lemma bitly_decoded:
  "asciiLowering P \<Longrightarrow> decodedOf P (js ''http://bit.ly/abc'') = js ''http://bit.ly/abc''"
  by (rule decodedOf_literal) (simp_all add: bitly_trim, simp add: js_def)

lemma bitly_not_unsafe: "\<not> unsafeProtocolPattern (js ''http://bit.ly/abc'')"
  by (simp add: js_def rx_defs lowerAscii_def)

lemma bitly_not_risky: "\<not> riskyProtocolPattern (js ''http://bit.ly/abc'')"
  by (simp add: js_def rx_defs lowerAscii_def)

lemma bitly_not_hidden: "\<not> hiddenExecutable (js ''http://bit.ly/abc'')"
  by (simp add: js_def rx_defs lowerAscii_def isAsciiLetter_def)

lemma bitly_parse:
  "parseURL (js ''http://bit.ly/abc'') = Inr \<lparr>pathname = js ''/abc'', hostname = js ''bit.ly''\<rparr>"
  by (simp add: js_def url_defs Let_def)

lemma bitly_extension:
  assumes "asciiLowering P"
    and "newURL P (js ''http://bit.ly/abc'') = Inr \<lparr>pathname = js ''/abc'', hostname = js ''bit.ly''\<rparr>"
  shows "extensionOf P (js ''http://bit.ly/abc'') = []"
proof -
  have "toLowerCase P (js ''/abc'') = map lowerAscii (js ''/abc'')"
    by (rule asciiLowering_apply[OF assms(1)]) (simp add: js_def)
  then have "toLowerCase P (js ''/abc'') = js ''/abc''"
    by (simp add: js_def lowerAscii_def)
  then show ?thesis
    by (simp add: extensionOf_def assms(2)) (simp add: js_def splitFirst_def isAlnum_def isAsciiLetter_def)
qed

lemma bitly_shortener:
  assumes "asciiLowering P"
    and "newURL P (js ''http://bit.ly/abc'') = Inr \<lparr>pathname = js ''/abc'', hostname = js ''bit.ly''\<rparr>"
  shows "punycodeOrShortener P (js ''http://bit.ly/abc'') =
     Some \<lparr>status = js ''warn'', reasonCode = js ''SHORTENER'',
           message = js ''Shortened URL detected ('' @ js ''bit.ly''
             @ js ''). Expand the link before generating a QR code.''\<rparr>"
proof -
  have "toLowerCase P (js ''bit.ly'') = map lowerAscii (js ''bit.ly'')"
    by (rule asciiLowering_apply[OF assms(1)]) (simp add: js_def)
  then have l: "toLowerCase P (js ''bit.ly'') = js ''bit.ly''"
    by (simp add: js_def lowerAscii_def)
  have x: "\<not> prefix (js ''xn--'') (js ''bit.ly'')"
    by (simp add: js_def)
  have m: "js ''bit.ly'' \<in> set shortenerDomains"
    by (simp add: shortenerDomains_def)
  show ?thesis
    by (simp add: punycodeOrShortener_def assms(2) l x m)
qed

lemma empty_not_listed:
  "[] \<notin> set blockedExtensions" "[] \<notin> set archiveExtensions" "[] \<notin> set macroEnabledDocs"
  by (simp_all add: blockedExtensions_def archiveExtensions_def macroEnabledDocs_def)

lemma decodedOf_lowered:
  assumes "lowerCaseLaws P"
  shows "decodedOf P (toLowerCase P c) = decodedOf P c"
proof -
  have "toLowerCase P (trim (toLowerCase P c)) = toLowerCase P (trim c)"
    using assms by (simp add: lowerCaseLaws_def)
  then show ?thesis
    by (simp add: decodedOf_def)
qed

lemma isWhiteSpace_lowerAscii: "isWhiteSpace (lowerAscii c) = isWhiteSpace c"
  by (auto simp: isWhiteSpace_def lowerAscii_def)

lemma dropWhile_ws_lower:
  "dropWhile isWhiteSpace (map lowerAscii s) = map lowerAscii (dropWhile isWhiteSpace s)"
  by (induction s) (auto simp: isWhiteSpace_lowerAscii)

lemma trim_lower: "trim (map lowerAscii s) = map lowerAscii (trim s)"
proof -
  have "rev (dropWhile isWhiteSpace (map lowerAscii s))
      = map lowerAscii (rev (dropWhile isWhiteSpace s))"
    by (simp only: dropWhile_ws_lower rev_map)
  then have "dropWhile isWhiteSpace (rev (dropWhile isWhiteSpace (map lowerAscii s)))
      = map lowerAscii (dropWhile isWhiteSpace (rev (dropWhile isWhiteSpace s)))"
    by (simp only: dropWhile_ws_lower)
  then show ?thesis
    by (simp only: trim_def rev_map)
qed

lemma lowerAscii_idem: "lowerAscii (lowerAscii c) = lowerAscii c"
  by (simp add: lowerAscii_def)

lemma lowerCaseLaws_std: "lowerCaseLaws stdPlatform"
  by (simp add: lowerCaseLaws_def asciiToLowerCase_def trim_lower lowerAscii_idem)

lemma punycodeOrShortener_reason:
  "punycodeOrShortener P d = Some v \<Longrightarrow> reasonCode v \<noteq> js ''ARCHIVE''"
  by (auto simp: punycodeOrShortener_def Let_def split: sum.splits if_splits)

lemma checkDecoded_risky:
  "inputType \<notin> set nonUrlTypes \<Longrightarrow> \<not> unsafeProtocolPattern d \<Longrightarrow> riskyProtocolPattern d \<Longrightarrow>
   checkDecoded P inputType d b =
     \<lparr>status = js ''warn'', reasonCode = js ''RISKY_PROTOCOL'',
      message = js ''Warning '' @ emDash
        @ js '' non-secure protocol detected (ftp, telnet, etc.).''\<rparr>"
  by (simp add: checkDecoded_def)

lemma checkDecoded_rest_flag:
  "inputType \<notin> set nonUrlTypes \<Longrightarrow> \<not> unsafeProtocolPattern d \<Longrightarrow>
   \<not> riskyProtocolPattern d \<Longrightarrow> \<not> hiddenExecutable d \<Longrightarrow>
   extensionOf P d \<notin> set blockedExtensions \<Longrightarrow> extensionOf P d \<notin> set archiveExtensions \<Longrightarrow>
   checkDecoded P inputType d b = checkDecoded P inputType d b'"
  by (simp add: checkDecoded_def Let_def)

lemma checkDecoded_rest_reason:
  assumes "inputType \<notin> set nonUrlTypes" and "\<not> unsafeProtocolPattern d"
    and "\<not> riskyProtocolPattern d" and "\<not> hiddenExecutable d"
    and "extensionOf P d \<notin> set blockedExtensions" and "extensionOf P d \<notin> set archiveExtensions"
  shows "reasonCode (checkDecoded P inputType d b) \<noteq> js ''ARCHIVE''"
proof (cases "punycodeOrShortener P d")
  case None
  with assms show ?thesis
    by (simp add: checkDecoded_def Let_def)
next
  case (Some v)
  with assms punycodeOrShortener_reason[OF Some] show ?thesis
    by (simp add: checkDecoded_def Let_def)
qed

text \<open>The archive rule is the only one that reads the flag.\<close>

lemma checkDecoded_flag_cases:
  "(reasonCode (checkDecoded P t d False) = js ''ARCHIVE''
      \<and> status (checkDecoded P t d False) = js ''block''
      \<and> reasonCode (checkDecoded P t d True) = js ''ARCHIVE''
      \<and> status (checkDecoded P t d True) = js ''warn'')
   \<or> (reasonCode (checkDecoded P t d False) \<noteq> js ''ARCHIVE''
      \<and> reasonCode (checkDecoded P t d True) \<noteq> js ''ARCHIVE''
      \<and> checkDecoded P t d True = checkDecoded P t d False)"
proof -
  consider (a) "t \<in> set nonUrlTypes"
    | (b) "t \<notin> set nonUrlTypes" "unsafeProtocolPattern d"
    | (c) "t \<notin> set nonUrlTypes" "\<not> unsafeProtocolPattern d" "riskyProtocolPattern d"
    | (d) "t \<notin> set nonUrlTypes" "\<not> unsafeProtocolPattern d" "\<not> riskyProtocolPattern d"
          "hiddenExecutable d"
    | (e) "t \<notin> set nonUrlTypes" "\<not> unsafeProtocolPattern d" "\<not> riskyProtocolPattern d"
          "\<not> hiddenExecutable d" "extensionOf P d \<in> set blockedExtensions"
    | (f) "t \<notin> set nonUrlTypes" "\<not> unsafeProtocolPattern d" "\<not> riskyProtocolPattern d"
          "\<not> hiddenExecutable d" "extensionOf P d \<notin> set blockedExtensions"
          "extensionOf P d \<in> set archiveExtensions"
    | (g) "t \<notin> set nonUrlTypes" "\<not> unsafeProtocolPattern d" "\<not> riskyProtocolPattern d"
          "\<not> hiddenExecutable d" "extensionOf P d \<notin> set blockedExtensions"
          "extensionOf P d \<notin> set archiveExtensions"
    by blast
  then show ?thesis
  proof cases
    case a
    then show ?thesis by (simp add: checkDecoded_nonUrl)
  next
    case b
    then show ?thesis by (simp add: checkDecoded_unsafe)
  next
    case c
    then show ?thesis by (simp add: checkDecoded_risky)
  next
    case d
    then show ?thesis by (simp add: checkDecoded_hidden)
  next
    case e
    then show ?thesis by (simp add: checkDecoded_executable)
  next
    case f
    then show ?thesis by (simp add: checkDecoded_archive)
  next
    case g
    from checkDecoded_rest_flag[OF g, of True False] checkDecoded_rest_reason[OF g, of False]
    show ?thesis by simp
  qed
qed

lemma zip_trim: "trim (js ''https://example.com/file.zip'') = js ''https://example.com/file.zip''"
  by (simp add: lit_defs)

lemma zip_decoded:
  "decodedOf stdPlatform (js ''https://example.com/file.zip'') = js ''https://example.com/file.zip''"
  by (rule decodedOf_literal) (simp_all add: zip_trim asciiLowering_std, simp add: js_def)

lemma zip_not_unsafe: "\<not> unsafeProtocolPattern (js ''https://example.com/file.zip'')"
  by (simp add: js_def rx_defs lowerAscii_def)

lemma zip_not_risky: "\<not> riskyProtocolPattern (js ''https://example.com/file.zip'')"
  by (simp add: js_def rx_defs lowerAscii_def)

lemma zip_not_hidden: "\<not> hiddenExecutable (js ''https://example.com/file.zip'')"
  by (simp add: js_def rx_defs lowerAscii_def isAsciiLetter_def)

lemma zip_parse:
  "parseURL (js ''https://example.com/file.zip'')
     = Inr \<lparr>pathname = js ''/file.zip'', hostname = js ''example.com''\<rparr>"
  by (simp add: js_def url_defs Let_def)

lemma zip_extension: "extensionOf stdPlatform (js ''https://example.com/file.zip'') = js ''zip''"
  by (simp add: extensionOf_def zip_parse)
     (simp add: js_def asciiToLowerCase_def splitFirst_def lowerAscii_def isAlnum_def isAsciiLetter_def)

lemma zip_verdict:
  "validateInputSafety stdPlatform (js ''URL'') (JString (js ''https://example.com/file.zip'')) b =
     Inr (if \<not> b then
        \<lparr>status = js ''block'', reasonCode = js ''ARCHIVE'',
         message = js ''Archive file (.'' @ js ''zip''
           @ js '') links are restricted to verified users for safety.''\<rparr>
      else
        \<lparr>status = js ''warn'', reasonCode = js ''ARCHIVE'',
         message = js ''Archive link detected (.'' @ js ''zip''
           @ js ''). Proceed with caution and share only with trusted users.''\<rparr>)"
proof -
  have t: "trim (js ''https://example.com/file.zip'') \<noteq> []"
    by (simp add: zip_trim)
  have b: "extensionOf stdPlatform (js ''https://example.com/file.zip'') \<notin> set blockedExtensions"
    by (simp add: zip_extension blockedExtensions_def)
  have a: "extensionOf stdPlatform (js ''https://example.com/file.zip'') \<in> set archiveExtensions"
    by (simp add: zip_extension archiveExtensions_def)
  show ?thesis
    by (simp only: validateInputSafety_nonblank[OF t] zip_decoded
        checkDecoded_archive[OF url_not_nonUrl zip_not_unsafe zip_not_risky zip_not_hidden b a]
        zip_extension)
qed

subsection \<open>The extension and the hidden-executable pattern\<close>

lemma extMatch_Some:
  "extMatch s = Some e \<Longrightarrow> \<exists>p. s = p @ 46 # e \<and> e \<noteq> [] \<and> list_all isAlnum e"
proof (induction s)
  case Nil
  then show ?case by simp
next
  case (Cons c cs)
  show ?case
  proof (cases "c = 46 \<and> cs \<noteq> [] \<and> list_all isAlnum cs")
    case True
    with Cons.prems have "e = cs" by simp
    with True have "c # cs = [] @ 46 # e \<and> e \<noteq> [] \<and> list_all isAlnum e" by simp
    then show ?thesis by blast
  next
    case False
    with Cons.prems have "extMatch cs = Some e" by auto
    from Cons.IH[OF this] obtain p where "cs = p @ 46 # e" "e \<noteq> []" "list_all isAlnum e"
      by blast
    then have "c # cs = (c # p) @ 46 # e \<and> e \<noteq> [] \<and> list_all isAlnum e" by simp
    then show ?thesis by blast
  qed
qed

lemma hiddenExecutable_append_left: "hiddenExecutable s \<Longrightarrow> hiddenExecutable (p @ s)"
  by (induction p) auto

lemma hiddenExecutable_token:
  assumes "map lowerAscii r \<in> set hiddenTokens" and "lookahead post"
  shows "hiddenExecutable (46 # r @ post)"
proof -
  have "matchesAtStart (map lowerAscii r) (r @ post)"
    by (simp add: matchesAtStart_def)
  moreover have "lookahead (drop (length (map lowerAscii r)) (r @ post))"
    using assms(2) by simp
  ultimately show ?thesis
    using assms(1) by (auto simp: list_ex_iff)
qed

lemma lookahead_after_split:
  "lookahead post \<Longrightarrow> lookahead (dropWhile (\<lambda>c. c \<noteq> 63 \<and> c \<noteq> 35) x @ post)"
proof (cases "dropWhile (\<lambda>c. c \<noteq> 63 \<and> c \<noteq> 35) x")
  case Nil
  assume "lookahead post"
  then show ?thesis by (simp only: Nil append_Nil)
next
  case (Cons a as)
  have "\<not> (a \<noteq> 63 \<and> a \<noteq> 35)"
    using hd_dropWhile[of "\<lambda>c. c \<noteq> 63 \<and> c \<noteq> 35" x] Cons by simp
  then have "\<not> isAsciiLetter a"
    by (auto simp: isAsciiLetter_def)
  with Cons show ?thesis by (simp add: lookahead_def)
qed

lemma hidden_of_extMatch:
  assumes "extMatch (splitFirst x) = Some r" and "map lowerAscii r \<in> set hiddenTokens"
    and "lookahead post"
  shows "hiddenExecutable (pre @ x @ post)"
proof -
  from extMatch_Some[OF assms(1)] obtain p where p: "splitFirst x = p @ 46 # r"
    by blast
  have "x = splitFirst x @ dropWhile (\<lambda>c. c \<noteq> 63 \<and> c \<noteq> 35) x"
    by (simp add: splitFirst_def)
  then have x: "pre @ x @ post
      = (pre @ p) @ (46 # r @ (dropWhile (\<lambda>c. c \<noteq> 63 \<and> c \<noteq> 35) x @ post))"
    using p by (metis append.assoc append_Cons)
  have "hiddenExecutable (46 # r @ (dropWhile (\<lambda>c. c \<noteq> 63 \<and> c \<noteq> 35) x @ post))"
    using assms(2) lookahead_after_split[OF assms(3)] by (rule hiddenExecutable_token)
  then show ?thesis
    by (simp only: x hiddenExecutable_append_left)
qed

lemma isAlnum_lowerAscii: "isAlnum (lowerAscii c) = isAlnum c"
  by (auto simp: isAlnum_def isAsciiLetter_def lowerAscii_def)

lemma lowerAscii_dot: "(lowerAscii c = 46) = (c = 46)"
  by (auto simp: lowerAscii_def)

lemma list_all_isAlnum_lower: "list_all isAlnum (map lowerAscii s) = list_all isAlnum s"
  by (induction s) (simp_all add: isAlnum_lowerAscii)

lemma extMatch_map_lower:
  "extMatch (map lowerAscii s) = map_option (map lowerAscii) (extMatch s)"
  by (induction s) (simp_all add: lowerAscii_dot list_all_isAlnum_lower)

lemma splitFirst_map_lower: "splitFirst (map lowerAscii s) = map lowerAscii (splitFirst s)"
  unfolding splitFirst_def by (induction s) (auto simp: lowerAscii_def)

lemma isAlnum_ascii: "list_all isAlnum e \<Longrightarrow> list_all (\<lambda>c. c < 128) e"
  by (induction e) (auto simp: isAlnum_def isAsciiLetter_def)

lemma lowerAscii_map_idem: "map lowerAscii (map lowerAscii s) = map lowerAscii s"
  by (induction s) (simp_all add: lowerAscii_idem)

lemma empty_not_hiddenToken: "[] \<notin> set hiddenTokens"
  by (simp add: hiddenTokens_def)

lemma isAlnum_no_dot: "list_all isAlnum e \<Longrightarrow> 46 \<notin> set e"
  by (induction e) (auto simp: isAlnum_def isAsciiLetter_def)

lemma dot_lowerAscii: "(46 \<in> set (map lowerAscii s)) = (46 \<in> set s)"
  by (induction s) (auto simp: lowerAscii_dot)

text \<open>When the end of a string holds its last dot, the extension matched in the string
  stands in that end.\<close>

lemma extension_in_end:
  assumes m: "front @ l = p @ 46 # e" and a: "list_all isAlnum e"
    and k: "46 \<in> set l \<or> 46 \<notin> set front"
  shows "\<exists>us. l = us @ 46 # e"
proof -
  from m obtain us where
    "(front = p @ us \<and> us @ l = 46 # e) \<or> (front @ us = p \<and> l = us @ 46 # e)"
    by (auto simp: append_eq_append_conv2)
  then show ?thesis
  proof
    assume c: "front = p @ us \<and> us @ l = 46 # e"
    show ?thesis
    proof (cases us)
      case Nil
      with c have "l = [] @ 46 # e" by simp
      then show ?thesis by blast
    next
      case (Cons u us')
      with c have u: "u = 46" and e: "e = us' @ l" by simp_all
      from c Cons u have "46 \<in> set front" by simp
      with k have "46 \<in> set l" by blast
      with e have "46 \<in> set e" by simp
      with isAlnum_no_dot[OF a] show ?thesis by blast
    qed
  next
    assume "front @ us = p \<and> l = us @ 46 # e"
    then show ?thesis by blast
  qed
qed

lemma hidden_from_extension:
  assumes low: "asciiLowering P" and kept: "pathEndKept P d front pre raw post"
    and ext: "extensionOf P d \<in> set hiddenTokens"
  shows "hiddenExecutable d"
proof (cases "newURL P d")
  case (Inl err)
  with ext empty_not_hiddenToken obtain e where e: "extMatch (splitFirst d) = Some e"
      and x: "toLowerCase P e \<in> set hiddenTokens"
    by (auto simp: extensionOf_def Let_def split: option.splits)
  from extMatch_Some[OF e] have "list_all isAlnum e" by blast
  then have "toLowerCase P e = map lowerAscii e"
    using asciiLowering_apply[OF low] isAlnum_ascii by blast
  with x have "map lowerAscii e \<in> set hiddenTokens" by simp
  from hidden_of_extMatch[OF e this, of "[]" "[]"] show ?thesis
    by (simp add: lookahead_def)
next
  case (Inr u)
  with kept have d: "d = pre @ raw @ post"
    and l: "splitFirst (toLowerCase P (pathname u)) = front @ map lowerAscii raw"
    and k: "46 \<in> set raw \<or> 46 \<notin> set front" and la: "lookahead post"
    by (simp_all add: pathEndKept_def)
  from ext Inr l empty_not_hiddenToken obtain e
    where e: "extMatch (front @ map lowerAscii raw) = Some e"
      and x: "toLowerCase P e \<in> set hiddenTokens"
    by (auto simp: extensionOf_def Let_def split: option.splits)
  from extMatch_Some[OF e] obtain p where p: "front @ map lowerAscii raw = p @ 46 # e"
    and al: "list_all isAlnum e"
    by blast
  from k have "46 \<in> set (map lowerAscii raw) \<or> 46 \<notin> set front"
    by (simp only: dot_lowerAscii)
  from extension_in_end[OF p al this] obtain us where "map lowerAscii raw = us @ 46 # e"
    by blast
  then obtain ru c r where raw: "raw = ru @ c # r" and c: "lowerAscii c = 46"
    and r: "map lowerAscii r = e"
    by (auto simp: map_eq_append_conv map_eq_Cons_conv)
  from c have c46: "c = 46"
    by (simp add: lowerAscii_dot)
  from al have "toLowerCase P e = map lowerAscii e"
    using asciiLowering_apply[OF low] isAlnum_ascii by blast
  with x have "map lowerAscii e \<in> set hiddenTokens"
    by simp
  then have "map lowerAscii r \<in> set hiddenTokens"
    by (simp only: r[symmetric] lowerAscii_map_idem)
  then have "hiddenExecutable (46 # r @ post)"
    using la by (rule hiddenExecutable_token)
  then have "hiddenExecutable ((pre @ ru) @ 46 # r @ post)"
    by (rule hiddenExecutable_append_left)
  then show ?thesis
    by (simp add: d raw c46)
qed

lemma punycodeOrShortener_later:
  "punycodeOrShortener P d = Some v \<Longrightarrow> reasonCode v \<noteq> js ''EXECUTABLE''"
  by (auto simp: punycodeOrShortener_def Let_def split: sum.splits if_splits)

lemma checkDecoded_rest_later:
  assumes "inputType \<notin> set nonUrlTypes" and "\<not> unsafeProtocolPattern d"
    and "\<not> riskyProtocolPattern d" and "\<not> hiddenExecutable d"
    and "extensionOf P d \<notin> set blockedExtensions" and "extensionOf P d \<notin> set archiveExtensions"
  shows "reasonCode (checkDecoded P inputType d b) \<noteq> js ''EXECUTABLE''"
proof (cases "punycodeOrShortener P d")
  case None
  with assms show ?thesis
    by (simp add: checkDecoded_def Let_def)
next
  case (Some v)
  with assms punycodeOrShortener_later[OF Some] show ?thesis
    by (simp add: checkDecoded_def Let_def)
qed

lemma checkDecoded_executable_only:
  assumes "reasonCode (checkDecoded P t d b) = js ''EXECUTABLE''"
  shows "\<not> hiddenExecutable d \<and> extensionOf P d \<in> set blockedExtensions"
proof -
  consider (a) "t \<in> set nonUrlTypes"
    | (b) "t \<notin> set nonUrlTypes" "unsafeProtocolPattern d"
    | (c) "t \<notin> set nonUrlTypes" "\<not> unsafeProtocolPattern d" "riskyProtocolPattern d"
    | (d) "t \<notin> set nonUrlTypes" "\<not> unsafeProtocolPattern d" "\<not> riskyProtocolPattern d"
          "hiddenExecutable d"
    | (e) "\<not> hiddenExecutable d" "extensionOf P d \<in> set blockedExtensions"
    | (f) "t \<notin> set nonUrlTypes" "\<not> unsafeProtocolPattern d" "\<not> riskyProtocolPattern d"
          "\<not> hiddenExecutable d" "extensionOf P d \<notin> set blockedExtensions"
          "extensionOf P d \<in> set archiveExtensions"
    | (g) "t \<notin> set nonUrlTypes" "\<not> unsafeProtocolPattern d" "\<not> riskyProtocolPattern d"
          "\<not> hiddenExecutable d" "extensionOf P d \<notin> set blockedExtensions"
          "extensionOf P d \<notin> set archiveExtensions"
    by blast
  then show ?thesis
  proof cases
    case a
    with assms show ?thesis by (simp add: checkDecoded_nonUrl)
  next
    case b
    with assms show ?thesis by (simp add: checkDecoded_unsafe)
  next
    case c
    with assms show ?thesis by (simp add: checkDecoded_risky)
  next
    case d
    with assms show ?thesis by (simp add: checkDecoded_hidden)
  next
    case e
    then show ?thesis by simp
  next
    case f
    with assms show ?thesis by (simp add: checkDecoded_archive split: if_splits)
  next
    case g
    from checkDecoded_rest_later[OF g, of b] assms show ?thesis by simp
  qed
qed

lemma blocked_not_token:
  "x \<in> set blockedExtensions \<Longrightarrow> x \<notin> set hiddenTokens \<Longrightarrow> x \<in> set cleanOnlyExtensions"
  by (auto simp: blockedExtensions_def hiddenTokens_def cleanOnlyExtensions_def)

lemma tab_trim:
  "trim (js ''https://example.com/a.e'' @ 9 # js ''xe'') = js ''https://example.com/a.e'' @ 9 # js ''xe''"
  by (simp add: lit_defs)

lemma tab_decoded:
  "decodedOf stdPlatform (js ''https://example.com/a.e'' @ 9 # js ''xe'')
     = js ''https://example.com/a.e'' @ 9 # js ''xe''"
  by (rule decodedOf_literal) (simp_all add: tab_trim asciiLowering_std, simp add: js_def)

lemma tab_not_unsafe: "\<not> unsafeProtocolPattern (js ''https://example.com/a.e'' @ 9 # js ''xe'')"
  by (simp add: js_def rx_defs lowerAscii_def)

lemma tab_not_risky: "\<not> riskyProtocolPattern (js ''https://example.com/a.e'' @ 9 # js ''xe'')"
  by (simp add: js_def rx_defs lowerAscii_def)

lemma tab_not_hidden: "\<not> hiddenExecutable (js ''https://example.com/a.e'' @ 9 # js ''xe'')"
  by (simp add: js_def rx_defs lowerAscii_def isAsciiLetter_def)

lemma tab_parse:
  "parseURL (js ''https://example.com/a.e'' @ 9 # js ''xe'')
     = Inr \<lparr>pathname = js ''/a.exe'', hostname = js ''example.com''\<rparr>"
  by (simp add: js_def url_defs Let_def)

lemma slash_a_exe_match:
  "extMatch (splitFirst (asciiToLowerCase (js ''/a.exe''))) = Some (js ''exe'')"
  by (simp add: js_def asciiToLowerCase_def splitFirst_def lowerAscii_def isAlnum_def
      isAsciiLetter_def)

lemma exe_lower: "asciiToLowerCase (js ''exe'') = js ''exe''"
  by (simp add: js_def asciiToLowerCase_def lowerAscii_def)

lemma tab_extension:
  "extensionOf stdPlatform (js ''https://example.com/a.e'' @ 9 # js ''xe'') = js ''exe''"
  by (simp add: extensionOf_def tab_parse slash_a_exe_match exe_lower)

lemma decodeLoop_once:
  assumes "decodeURIComponent s = Inr s'" and "s' \<noteq> s" and "decodeURIComponent s' = Inr s'"
  shows "decodeLoop 0 s = s'"
proof -
  have "decodeLoop 0 s = decodeLoop 1 s'"
    using assms(1,2) by (subst decodeLoop.simps) simp
  then show ?thesis
    by (simp add: decodeLoop_fixed[OF assms(3)])
qed

lemma escaped_tab_trim:
  "trim (js ''https://example.com/a.e%09xe'') = js ''https://example.com/a.e%09xe''"
  by (simp add: lit_defs)

lemma escaped_tab_lower:
  "asciiToLowerCase (js ''https://example.com/a.e%09xe'') = js ''https://example.com/a.e%09xe''"
  by (simp add: js_def asciiToLowerCase_def lowerAscii_def)

lemma escaped_tab_decode:
  "decodeURIComponent (js ''https://example.com/a.e%09xe'')
     = Inr (js ''https://example.com/a.e'' @ 9 # js ''xe'')"
  by (simp add: js_def hexValue_def leadingOnes_def)

lemma tab_decode:
  "decodeURIComponent (js ''https://example.com/a.e'' @ 9 # js ''xe'')
     = Inr (js ''https://example.com/a.e'' @ 9 # js ''xe'')"
  by (rule decodeURIComponent_plain) (simp add: js_def)

lemma escaped_tab_decoded:
  "decodedOf stdPlatform (js ''https://example.com/a.e%09xe'')
     = js ''https://example.com/a.e'' @ 9 # js ''xe''"
proof -
  have "decodeLoop 0 (js ''https://example.com/a.e%09xe'')
      = js ''https://example.com/a.e'' @ 9 # js ''xe''"
    by (rule decodeLoop_once[OF escaped_tab_decode _ tab_decode]) (simp add: js_def)
  then show ?thesis
    by (simp add: decodedOf_def escaped_tab_trim escaped_tab_lower) (simp add: js_def)
qed

lemma spaced_trim:
  "trim (js ''https://example.com/a b.exe'') = js ''https://example.com/a b.exe''"
  by (simp add: lit_defs)

lemma spaced_decoded:
  "decodedOf stdPlatform (js ''https://example.com/a b.exe'') = js ''https://example.com/a b.exe''"
  by (rule decodedOf_literal) (simp_all add: spaced_trim asciiLowering_std, simp add: js_def)

lemma spaced_parse:
  "parseURL (js ''https://example.com/a b.exe'')
     = Inr \<lparr>pathname = js ''/a%20b.exe'', hostname = js ''example.com''\<rparr>"
  by (simp add: js_def url_defs Let_def utf8Encode_def percentEncodeByte_def hexDigit_def)

lemma spaced_pathPart:
  "splitFirst (asciiToLowerCase (js ''/a%20b.exe'')) = js ''/a%20b'' @ map lowerAscii (js ''.exe'')"
  by (simp add: js_def asciiToLowerCase_def splitFirst_def lowerAscii_def)

lemma spaced_kept:
  "pathEndKept stdPlatform (js ''https://example.com/a b.exe'')
     (js ''/a%20b'') (js ''https://example.com/a b'') (js ''.exe'') []"
  by (simp add: pathEndKept_def spaced_parse spaced_pathPart)
     (simp add: js_def lookahead_def)

lemma spaced_match:
  "extMatch (splitFirst (asciiToLowerCase (js ''/a%20b.exe''))) = Some (js ''exe'')"
  by (simp add: js_def asciiToLowerCase_def splitFirst_def lowerAscii_def isAlnum_def
      isAsciiLetter_def)

lemma spaced_extension:
  "extensionOf stdPlatform (js ''https://example.com/a b.exe'') \<in> set hiddenTokens"
  by (simp add: extensionOf_def spaced_parse spaced_match exe_lower hiddenTokens_def)

lemma dmg_trim: "trim (js ''example.com/setup.dmg'') = js ''example.com/setup.dmg''"
  by (simp add: lit_defs)

lemma dmg_decoded:
  "decodedOf stdPlatform (js ''example.com/setup.dmg'') = js ''example.com/setup.dmg''"
  by (rule decodedOf_literal) (simp_all add: dmg_trim asciiLowering_std, simp add: js_def)

lemma dmg_parse: "parseURL (js ''example.com/setup.dmg'') = Inl TypeError"
  by (simp add: js_def url_defs Let_def)

lemma dmg_extension: "extensionOf stdPlatform (js ''example.com/setup.dmg'') = js ''dmg''"
  by (simp add: extensionOf_def dmg_parse)
     (simp add: js_def asciiToLowerCase_def splitFirst_def lowerAscii_def isAlnum_def isAsciiLetter_def)

lemma dmg_not_unsafe: "\<not> unsafeProtocolPattern (js ''example.com/setup.dmg'')"
  by (simp add: js_def rx_defs lowerAscii_def)

lemma dmg_not_risky: "\<not> riskyProtocolPattern (js ''example.com/setup.dmg'')"
  by (simp add: js_def rx_defs lowerAscii_def)

lemma dmg_not_hidden: "\<not> hiddenExecutable (js ''example.com/setup.dmg'')"
  by (simp add: js_def rx_defs lowerAscii_def isAsciiLetter_def)

lemma dmg_returns:
  "returns (validateInputSafety stdPlatform (js ''URL'') (JString (js ''example.com/setup.dmg'')) False)
     ''block'' ''EXECUTABLE''"
proof -
  have t: "trim (js ''example.com/setup.dmg'') \<noteq> []"
    by (simp add: dmg_trim)
  have b: "extensionOf stdPlatform (js ''example.com/setup.dmg'') \<in> set blockedExtensions"
    by (simp add: dmg_extension blockedExtensions_def)
  show ?thesis
    by (simp add: returns_nonblank[OF t] dmg_decoded
        checkDecoded_executable[OF url_not_nonUrl dmg_not_unsafe dmg_not_risky dmg_not_hidden b])
qed

lemma dmg_kept: "pathEndKept stdPlatform (js ''example.com/setup.dmg'') [] [] [] []"
  by (simp add: pathEndKept_def dmg_parse)

subsection \<open>The earlier variant\<close>

declare validateInputSafetyBasic.simps [simp del]

lemma bitly_no_extension: "extMatch (splitFirst (js ''http://bit.ly/abc'')) = None"
  by (simp add: js_def splitFirst_def isAlnum_def isAsciiLetter_def)

lemma bitly_basic:
  assumes "asciiLowering P"
    and "newURL P (js ''http://bit.ly/abc'') = Inr \<lparr>pathname = js ''/abc'', hostname = js ''bit.ly''\<rparr>"
  shows "validateInputSafetyBasic P (js ''URL'') (JString (js ''http://bit.ly/abc'')) False =
     Inr \<lparr>status = js ''warn'', reasonCode = js ''SHORTENER'',
          message = js ''Shortened URL detected ('' @ js ''bit.ly''
            @ js ''). Expand the link before generating a QR code.''\<rparr>"
proof -
  have "toLowerCase P (js ''http://bit.ly/abc'') = map lowerAscii (js ''http://bit.ly/abc'')"
    by (rule asciiLowering_apply[OF assms(1)]) (simp add: js_def)
  then have l: "toLowerCase P (js ''http://bit.ly/abc'') = js ''http://bit.ly/abc''"
    by (simp add: js_def lowerAscii_def)
  have d: "decodeURIComponent (js ''http://bit.ly/abc'') = Inr (js ''http://bit.ly/abc'')"
    by (rule decodeURIComponent_plain) (simp add: js_def)
  have w: "\<not> prefix (js ''www.'') (js ''bit.ly'')"
    by (simp add: js_def)
  have m: "js ''bit.ly'' \<in> set shortenerDomains"
    by (simp add: shortenerDomains_def)
  have s: "basicShortener P (js ''http://bit.ly/abc'') =
     Some \<lparr>status = js ''warn'', reasonCode = js ''SHORTENER'',
           message = js ''Shortened URL detected ('' @ js ''bit.ly''
             @ js ''). Expand the link before generating a QR code.''\<rparr>"
    by (simp add: basicShortener_def assms(2) w m)
  have t: "js ''http://bit.ly/abc'' \<noteq> []"
    by simp
  show ?thesis
    by (simp add: validateInputSafetyBasic.simps bitly_trim t l d basicChecks_def url_not_nonUrl
        bitly_not_unsafe bitly_not_risky bitly_no_extension empty_not_listed s)
qed

lemma basic_blank:
  "missingOrBlank content \<Longrightarrow>
     returns (validateInputSafetyBasic P inputType content isVerifiedUser) ''block'' ''EMPTY''"
  by (cases content)
    (auto simp: missingOrBlank_def returns_Inr emptyVerdict_def validateInputSafetyBasic.simps)

text \<open>For the plainly named executable the earlier variant, which has no hidden-executable
  pattern, reaches its extension list.\<close>

lemma plain_exe_basic:
  assumes "asciiLowering P"
  shows "returns (validateInputSafetyBasic P (js ''URL'')
        (JString (js ''https://example.com/installer.exe'')) False) ''block'' ''EXECUTABLE''"
proof -
  have "toLowerCase P (js ''https://example.com/installer.exe'')
      = map lowerAscii (js ''https://example.com/installer.exe'')"
    by (rule asciiLowering_apply[OF assms]) (simp add: js_def)
  then have l: "toLowerCase P (js ''https://example.com/installer.exe'')
      = js ''https://example.com/installer.exe''"
    by (simp add: js_def lowerAscii_def)
  have "toLowerCase P (js ''exe'') = map lowerAscii (js ''exe'')"
    by (rule asciiLowering_apply[OF assms]) (simp add: js_def)
  then have x: "toLowerCase P (js ''exe'') = js ''exe''"
    by (simp add: js_def lowerAscii_def)
  have d: "decodeURIComponent (js ''https://example.com/installer.exe'')
      = Inr (js ''https://example.com/installer.exe'')"
    by (rule decodeURIComponent_plain) (simp add: js_def)
  have m: "extMatch (splitFirst (js ''https://example.com/installer.exe'')) = Some (js ''exe'')"
    by (simp add: js_def splitFirst_def isAlnum_def isAsciiLetter_def)
  have b: "js ''exe'' \<in> set blockedExtensions"
    by (simp add: blockedExtensions_def)
  have t: "js ''https://example.com/installer.exe'' \<noteq> []"
    by simp
  show ?thesis
    by (simp add: validateInputSafetyBasic.simps exe_trim t l d basicChecks_def url_not_nonUrl
        exe_not_unsafe exe_not_risky m x b returns_Inr)
qed

text \<open>The earlier variant is not total: a malformed escape reaches the caller.\<close>

lemma basic_throws:
  "validateInputSafetyBasic stdPlatform (js ''URL'') (JString (js ''%zz'')) False = Inl URIError"
  by (simp add: validateInputSafetyBasic.simps decode_malformed)
     (simp add: js_def trim_def isWhiteSpace_def asciiToLowerCase_def lowerAscii_def hexValue_def)

section \<open>The emptiness check comes first\<close>

text \<open>
  C8. For every input type, the non-URL types included, and every \<open>isVerifiedUser\<close>:
  content that is missing, not a string, or blank after trimming is answered with status
  \<open>block\<close> and reason code \<open>EMPTY\<close>. The emptiness check runs before the bypass for the
  non-URL types. The same holds of the earlier variant.
\<close>

theorem blank_content_is_empty:
  "missingOrBlank content \<Longrightarrow>
     returns (validateInputSafety P inputType content isVerifiedUser) ''block'' ''EMPTY''
     \<and> returns (validateInputSafetyBasic P inputType content isVerifiedUser) ''block'' ''EMPTY''"
  by (cases content)
    (auto simp: missingOrBlank_def returns_Inr emptyVerdict_def validateInputSafety.simps
      validateInputSafetyBasic.simps)

lemma trim_spaces: "trim (js ''   '') = []"
  by (simp add: trim_def js_def isWhiteSpace_def)

theorem blank_content_is_empty_witness:
  "missingOrBlank (JString (js ''   '')) \<and> js ''Text'' \<in> set nonUrlTypes
   \<and> returns (validateInputSafety stdPlatform (js ''Text'') (JString (js ''   '')) False)
        ''block'' ''EMPTY''
   \<and> returns (validateInputSafetyBasic stdPlatform (js ''Text'') (JString (js ''   '')) False)
        ''block'' ''EMPTY''
   \<and> missingOrBlank JUndefined
   \<and> returns (validateInputSafety stdPlatform (js ''Text'') JUndefined True) ''block'' ''EMPTY''
   \<and> returns (validateInputSafetyBasic stdPlatform (js ''Text'') JUndefined True)
        ''block'' ''EMPTY''"
proof -
  have b: "missingOrBlank (JString (js ''   ''))"
    by (simp add: missingOrBlank_def trim_spaces)
  have u: "missingOrBlank JUndefined"
    by (simp add: missingOrBlank_def)
  have t: "js ''Text'' \<in> set nonUrlTypes"
    by (simp add: nonUrlTypes_def)
  show ?thesis
    using b u t blank_content_is_empty[OF b, of stdPlatform "js ''Text''" False]
      blank_content_is_empty[OF u, of stdPlatform "js ''Text''" True]
    by simp
qed

section \<open>Totality and the shape of the verdict\<close>

text \<open>
  C1. For every input type, every content value (a string or not) and every
  \<open>isVerifiedUser\<close>, on every platform, the validator returns a verdict (\<open>Inr\<close>: no exception
  reaches the caller) whose status is one of \<open>ok\<close>, \<open>warn\<close>, \<open>block\<close>, whose reason code is
  one of the twelve codes and whose message is not empty. The witness is a call whose
  content is a malformed percent-escape and not a URL: both built-ins throw, the validator
  returns.
\<close>

theorem validateInputSafety_total:
  "\<exists>v. validateInputSafety P inputType content isVerifiedUser = Inr v
     \<and> status v \<in> set (map js [''ok'', ''warn'', ''block''])
     \<and> reasonCode v \<in> set (map js [''EMPTY'', ''UNSAFE_PROTOCOL'', ''RISKY_PROTOCOL'',
          ''EXECUTABLE'', ''EXECUTABLE_HIDDEN'', ''ARCHIVE'', ''MACRO_DOC'', ''PUNYCODE_DOMAIN'',
          ''SHORTENER'', ''HTTP'', ''SAFE'', ''INVALID''])
     \<and> message v \<noteq> []"
proof -
  obtain v where v: "validateInputSafety P inputType content isVerifiedUser = Inr v" "listed v"
    using validateInputSafety_listed by blast
  from v(2) have "status v \<in> set (map js [''ok'', ''warn'', ''block''])"
    unfolding listed_def verdictCodes_def by auto
  moreover from v(2) have "reasonCode v \<in> set (map js [''EMPTY'', ''UNSAFE_PROTOCOL'',
      ''RISKY_PROTOCOL'', ''EXECUTABLE'', ''EXECUTABLE_HIDDEN'', ''ARCHIVE'', ''MACRO_DOC'',
      ''PUNYCODE_DOMAIN'', ''SHORTENER'', ''HTTP'', ''SAFE'', ''INVALID''])"
    unfolding listed_def verdictCodes_def by auto
  moreover from v(2) have "message v \<noteq> []"
    by (simp add: listed_def)
  ultimately show ?thesis using v(1) by blast
qed

theorem validateInputSafety_total_witness:
  "decodeURIComponent (js ''%zz'') = Inl URIError
   \<and> parseURL (js ''%zz'') = Inl TypeError
   \<and> (\<exists>v. validateInputSafety stdPlatform (js ''URL'') (JString (js ''%zz'')) False = Inr v
        \<and> status v \<in> set (map js [''ok'', ''warn'', ''block''])
        \<and> reasonCode v \<in> set (map js [''EMPTY'', ''UNSAFE_PROTOCOL'', ''RISKY_PROTOCOL'',
             ''EXECUTABLE'', ''EXECUTABLE_HIDDEN'', ''ARCHIVE'', ''MACRO_DOC'',
             ''PUNYCODE_DOMAIN'', ''SHORTENER'', ''HTTP'', ''SAFE'', ''INVALID''])
        \<and> message v \<noteq> [])"
  using decode_malformed parse_malformed
    validateInputSafety_total[of stdPlatform "js ''URL''" "JString (js ''%zz'')" False]
  by (simp only: simp_thms)

text \<open>
  C9. Every returned verdict pairs status and reason code as the source's \<open>return\<close>
  statements do: the status is \<open>ok\<close>, \<open>warn\<close> or \<open>block\<close>; it is \<open>ok\<close> exactly when the reason
  code is \<open>SAFE\<close>; a \<open>warn\<close> carries one of RISKY_PROTOCOL, ARCHIVE, MACRO_DOC,
  PUNYCODE_DOMAIN, SHORTENER, HTTP; a \<open>block\<close> carries one of EMPTY, UNSAFE_PROTOCOL,
  EXECUTABLE_HIDDEN, EXECUTABLE, ARCHIVE, INVALID; the message is never empty.
\<close>

theorem status_reasonCode_pairing:
  "validateInputSafety P inputType content isVerifiedUser = Inr v \<Longrightarrow>
     (status v = js ''ok'' \<or> status v = js ''warn'' \<or> status v = js ''block'')
     \<and> ((status v = js ''ok'') = (reasonCode v = js ''SAFE''))
     \<and> (status v = js ''warn'' \<longrightarrow>
          reasonCode v \<in> set (map js [''RISKY_PROTOCOL'', ''ARCHIVE'', ''MACRO_DOC'',
            ''PUNYCODE_DOMAIN'', ''SHORTENER'', ''HTTP'']))
     \<and> (status v = js ''block'' \<longrightarrow>
          reasonCode v \<in> set (map js [''EMPTY'', ''UNSAFE_PROTOCOL'', ''EXECUTABLE_HIDDEN'',
            ''EXECUTABLE'', ''ARCHIVE'', ''INVALID'']))
     \<and> message v \<noteq> []"
proof -
  assume eq: "validateInputSafety P inputType content isVerifiedUser = Inr v"
  have "listed v"
    using validateInputSafety_listed[of P inputType content isVerifiedUser] eq by auto
  then show ?thesis
    unfolding listed_def verdictCodes_def by auto
qed

theorem status_reasonCode_pairing_witness:
  "validateInputSafety stdPlatform (js ''URL'')
       (JString (js ''https://example.com/installer.exe'')) False =
     Inr \<lparr>status = js ''block'', reasonCode = js ''EXECUTABLE_HIDDEN'',
          message = js ''Blocked '' @ emDash
            @ js '' hidden executable signature detected in encoded or obfuscated URL.''\<rparr>
   \<and> js ''EXECUTABLE_HIDDEN'' \<in> set (map js [''EMPTY'', ''UNSAFE_PROTOCOL'',
         ''EXECUTABLE_HIDDEN'', ''EXECUTABLE'', ''ARCHIVE'', ''INVALID''])
   \<and> js ''block'' \<noteq> js ''ok'' \<and> js ''EXECUTABLE_HIDDEN'' \<noteq> js ''SAFE''"
  using status_reasonCode_pairing[OF exe_verdict[OF asciiLowering_std, of False]]
    exe_verdict[OF asciiLowering_std, of False]
  by simp

section \<open>The bypass for the non-URL types\<close>

text \<open>
  C2, as stated, fails: for a non-URL type the empty string is answered with
  \<open>block\<close>/\<open>EMPTY\<close>, not \<open>ok\<close>/\<open>SAFE\<close>, because the emptiness check comes first.
\<close>

theorem nonUrl_blank_counterexample:
  "\<not> returns (validateInputSafety stdPlatform (js ''Text'') (JString []) False) ''ok'' ''SAFE''"
  by (simp add: validateInputSafety.simps returns_Inr emptyVerdict_def)

text \<open>
  C2, amended. For every content string that is not blank after trimming and every
  \<open>isVerifiedUser\<close>, a non-URL input type is answered with \<open>ok\<close>/\<open>SAFE\<close>, whatever the
  content.
\<close>

theorem nonUrl_types_are_safe:
  "trim content \<noteq> [] \<Longrightarrow> inputType \<in> set nonUrlTypes \<Longrightarrow>
     returns (validateInputSafety P inputType (JString content) isVerifiedUser) ''ok'' ''SAFE''"
  by (simp add: returns_nonblank checkDecoded_nonUrl)

theorem nonUrl_types_are_safe_witness:
  "trim (js ''javascript:alert(1)'') \<noteq> [] \<and> js ''Text'' \<in> set nonUrlTypes
   \<and> returns (validateInputSafety stdPlatform (js ''Text'') (JString (js ''javascript:alert(1)'')) False)
        ''ok'' ''SAFE''"
proof -
  have t: "trim (js ''javascript:alert(1)'') \<noteq> []"
    by (simp add: js_alert_trim)
  have n: "js ''Text'' \<in> set nonUrlTypes"
    by (simp add: nonUrlTypes_def)
  show ?thesis
    using t n nonUrl_types_are_safe[OF t n, of stdPlatform False] by simp
qed

section \<open>Unsafe schemes\<close>



section \<open>A plainly named executable\<close>

text \<open>
  C3, as stated, fails: \<open>https://example.com/installer.exe\<close> is not answered with the
  reason code \<open>EXECUTABLE\<close>.
\<close>

theorem plain_exe_counterexample:
  "\<not> returns (validateInputSafety stdPlatform (js ''URL'')
        (JString (js ''https://example.com/installer.exe'')) False) ''block'' ''EXECUTABLE''"
  by (simp add: exe_verdict[OF asciiLowering_std] returns_Inr)

text \<open>
  C3, amended. The call is answered with \<open>block\<close>/\<open>EXECUTABLE_HIDDEN\<close>: the hidden-executable
  pattern of section 6 matches \<open>.exe\<close> at the end of the string, before the extension list
  of section 7 is consulted. This holds on every platform whose \<open>toLowerCase\<close> acts on
  ASCII strings as it should.
\<close>

theorem plain_exe_is_hidden:
  "asciiLowering P \<Longrightarrow>
     returns (validateInputSafety P (js ''URL'')
        (JString (js ''https://example.com/installer.exe'')) False) ''block'' ''EXECUTABLE_HIDDEN''"
  by (simp add: exe_verdict returns_Inr)

theorem plain_exe_is_hidden_witness:
  "asciiLowering stdPlatform
   \<and> returns (validateInputSafety stdPlatform (js ''URL'')
        (JString (js ''https://example.com/installer.exe'')) False) ''block'' ''EXECUTABLE_HIDDEN''"
  using asciiLowering_std plain_exe_is_hidden[OF asciiLowering_std] by simp

section \<open>A shortener behind plain HTTP\<close>

text \<open>
  C4. \<open>http://bit.ly/abc\<close> with the input type \<open>URL\<close> is answered with \<open>warn\<close>/\<open>SHORTENER\<close>
  although the decoded string starts with \<open>http://\<close>: the shortener check of section 10
  returns before the HTTP check of section 11 is reached. Stated for every platform whose
  \<open>toLowerCase\<close> acts on ASCII strings as it should and whose URL constructor gives this
  URL the host name \<open>bit.ly\<close> and the path \<open>/abc\<close>. The earlier variant, which checks the
  shortener before the HTTP prefix too, gives the same answer.
\<close>

theorem shortener_before_http:
  assumes "asciiLowering P"
    and "newURL P (js ''http://bit.ly/abc'') = Inr \<lparr>pathname = js ''/abc'', hostname = js ''bit.ly''\<rparr>"
  shows "prefix (js ''http://'') (decodedOf P (js ''http://bit.ly/abc''))
     \<and> returns (validateInputSafety P (js ''URL'') (JString (js ''http://bit.ly/abc'')) False)
         ''warn'' ''SHORTENER''
     \<and> returns (validateInputSafetyBasic P (js ''URL'') (JString (js ''http://bit.ly/abc'')) False)
         ''warn'' ''SHORTENER''"
proof -
  have t: "trim (js ''http://bit.ly/abc'') \<noteq> []"
    by (simp add: bitly_trim)
  have p: "prefix (js ''http://'') (js ''http://bit.ly/abc'')"
    by (simp add: js_def)
  have e: "extensionOf P (js ''http://bit.ly/abc'') = []"
    using assms by (rule bitly_extension)
  have "checkDecoded P (js ''URL'') (js ''http://bit.ly/abc'') False =
     \<lparr>status = js ''warn'', reasonCode = js ''SHORTENER'',
      message = js ''Shortened URL detected ('' @ js ''bit.ly''
        @ js ''). Expand the link before generating a QR code.''\<rparr>"
    by (rule checkDecoded_late[OF url_not_nonUrl bitly_not_unsafe bitly_not_risky bitly_not_hidden])
       (simp_all add: e empty_not_listed bitly_shortener[OF assms])
  then show ?thesis
    by (simp add: returns_nonblank[OF t] bitly_decoded[OF assms(1)] p bitly_basic[OF assms]
        returns_Inr)
qed

theorem shortener_before_http_witness:
  "asciiLowering stdPlatform
   \<and> newURL stdPlatform (js ''http://bit.ly/abc'') = Inr \<lparr>pathname = js ''/abc'', hostname = js ''bit.ly''\<rparr>
   \<and> prefix (js ''http://'') (decodedOf stdPlatform (js ''http://bit.ly/abc''))
   \<and> returns (validateInputSafety stdPlatform (js ''URL'') (JString (js ''http://bit.ly/abc'')) False)
         ''warn'' ''SHORTENER''
   \<and> returns (validateInputSafetyBasic stdPlatform (js ''URL'')
         (JString (js ''http://bit.ly/abc'')) False) ''warn'' ''SHORTENER''"
proof -
  have n: "newURL stdPlatform (js ''http://bit.ly/abc'') = Inr \<lparr>pathname = js ''/abc'', hostname = js ''bit.ly''\<rparr>"
    by (simp add: bitly_parse)
  show ?thesis
    using asciiLowering_std n shortener_before_http[OF asciiLowering_std n] by simp
qed

section \<open>Letter case of the content\<close>

text \<open>
  C7. For every input type, every \<open>isVerifiedUser\<close> and every content string, the verdict
  for the lower-cased content is the verdict for the content: the validator lower-cases
  the trimmed content before any check. Stated for every platform whose \<open>toLowerCase\<close>
  satisfies \<open>lowerCaseLaws\<close>; the witness is \<open>FILE.EXE\<close> against \<open>file.exe\<close>.
\<close>

theorem case_invariance:
  assumes "lowerCaseLaws P"
  shows "validateInputSafety P inputType (JString (toLowerCase P c)) isVerifiedUser
       = validateInputSafety P inputType (JString c) isVerifiedUser"
proof -
  have e: "(toLowerCase P c = []) = (c = [])"
    using assms by (simp add: lowerCaseLaws_def)
  have "trim (toLowerCase P c) = toLowerCase P (trim c)"
    using assms by (simp add: lowerCaseLaws_def)
  moreover have "(toLowerCase P (trim c) = []) = (trim c = [])"
    using assms by (simp add: lowerCaseLaws_def)
  ultimately have t: "(trim (toLowerCase P c) = []) = (trim c = [])"
    by simp
  show ?thesis
    by (simp add: validateInputSafety.simps e t decodedOf_lowered[OF assms])
qed

theorem case_invariance_witness:
  "lowerCaseLaws stdPlatform
   \<and> toLowerCase stdPlatform (js ''FILE.EXE'') = js ''file.exe''
   \<and> validateInputSafety stdPlatform (js ''URL'') (JString (js ''file.exe'')) False
       = validateInputSafety stdPlatform (js ''URL'') (JString (js ''FILE.EXE'')) False"
proof -
  have l: "toLowerCase stdPlatform (js ''FILE.EXE'') = js ''file.exe''"
    by (simp add: asciiToLowerCase_def js_def lowerAscii_def)
  show ?thesis
    using lowerCaseLaws_std l
      case_invariance[OF lowerCaseLaws_std, of "js ''URL''" "js ''FILE.EXE''" False]
    by simp
qed

section \<open>The trust flag\<close>

text \<open>
  C5. With input type and content fixed, \<open>isVerifiedUser\<close> changes the verdict in the
  archive case only: when the verdict for \<open>false\<close> has the reason code \<open>ARCHIVE\<close> its status
  is \<open>block\<close> and the verdict for \<open>true\<close> is \<open>warn\<close>/\<open>ARCHIVE\<close>; when either verdict has
  another reason code, the two verdicts are equal.
\<close>

theorem only_archive_depends_on_flag:
  assumes "validateInputSafety P inputType content False = Inr v"
    and "validateInputSafety P inputType content True = Inr w"
  shows "(reasonCode v = js ''ARCHIVE'' \<longrightarrow>
            status v = js ''block'' \<and> status w = js ''warn'' \<and> reasonCode w = js ''ARCHIVE'')
       \<and> (reasonCode v \<noteq> js ''ARCHIVE'' \<longrightarrow> w = v)
       \<and> (reasonCode w \<noteq> js ''ARCHIVE'' \<longrightarrow> w = v)"
proof (cases "\<exists>s. content = JString s \<and> trim s \<noteq> []")
  case True
  then obtain s where s: "content = JString s" "trim s \<noteq> []" by blast
  have "v = checkDecoded P inputType (decodedOf P s) False"
    and "w = checkDecoded P inputType (decodedOf P s) True"
    using assms s by (simp_all add: validateInputSafety_nonblank)
  then show ?thesis
    using checkDecoded_flag_cases[of P inputType "decodedOf P s"] by auto
next
  case False
  have "v = emptyVerdict"
    using validateInputSafety_cases[of P inputType content False] False assms(1) by auto
  moreover have "w = emptyVerdict"
    using validateInputSafety_cases[of P inputType content True] False assms(2) by auto
  ultimately show ?thesis
    by (simp add: emptyVerdict_def)
qed

theorem only_archive_depends_on_flag_witness:
  "validateInputSafety stdPlatform (js ''URL'') (JString (js ''https://example.com/file.zip'')) False =
     Inr \<lparr>status = js ''block'', reasonCode = js ''ARCHIVE'',
          message = js ''Archive file (.'' @ js ''zip''
            @ js '') links are restricted to verified users for safety.''\<rparr>
   \<and> validateInputSafety stdPlatform (js ''URL'') (JString (js ''https://example.com/file.zip'')) True =
     Inr \<lparr>status = js ''warn'', reasonCode = js ''ARCHIVE'',
          message = js ''Archive link detected (.'' @ js ''zip''
            @ js ''). Proceed with caution and share only with trusted users.''\<rparr>"
  using only_archive_depends_on_flag[OF zip_verdict[of False] zip_verdict[of True]]
    zip_verdict[of False] zip_verdict[of True]
  by simp

section \<open>Which extensions reach the reason code EXECUTABLE\<close>

text \<open>
  C10, as stated, fails. The content \<open>https://example.com/a.e%09xe\<close> is decoded to a string
  with a tab (code unit 9) inside the extension and is answered with \<open>block\<close>/\<open>EXECUTABLE\<close>
  for the extension \<open>exe\<close>: the URL parser removes the tab, so the path name ends in
  \<open>.exe\<close>, while the decoded string holds no \<open>.exe\<close> for the hidden-executable pattern to
  match.
\<close>

theorem tab_in_extension_counterexample:
  "returns (validateInputSafety stdPlatform (js ''URL'')
        (JString (js ''https://example.com/a.e%09xe'')) False) ''block'' ''EXECUTABLE''
   \<and> decodedOf stdPlatform (js ''https://example.com/a.e%09xe'')
        = js ''https://example.com/a.e'' @ 9 # js ''xe''
   \<and> extensionOf stdPlatform (decodedOf stdPlatform (js ''https://example.com/a.e%09xe''))
        = js ''exe''
   \<and> js ''exe'' \<notin> set cleanOnlyExtensions
   \<and> \<not> hiddenExecutable (decodedOf stdPlatform (js ''https://example.com/a.e%09xe''))"
proof -
  have t: "trim (js ''https://example.com/a.e%09xe'') \<noteq> []"
    by (simp add: escaped_tab_trim)
  have b: "extensionOf stdPlatform (js ''https://example.com/a.e'' @ 9 # js ''xe'')
      \<in> set blockedExtensions"
    by (simp add: tab_extension blockedExtensions_def)
  have c: "js ''exe'' \<notin> set cleanOnlyExtensions"
    by (simp add: cleanOnlyExtensions_def)
  show ?thesis
    by (simp add: returns_nonblank[OF t] escaped_tab_decoded tab_extension tab_not_hidden c
        checkDecoded_executable[OF url_not_nonUrl tab_not_unsafe tab_not_risky tab_not_hidden b])
qed

text \<open>
  C10, amended. Let the extension be taken from the decoded string itself (the URL
  constructor threw) or from a path name whose end, from at or before its last dot, the
  parser kept as it stands in the decoded string (\<open>pathEndKept\<close>; the path before that end
  may have been rewritten, as in \<open>/a b.exe\<close> to \<open>/a%20b.exe\<close>). Then an extracted extension
  among \<open>exe\<close>, \<open>msi\<close>, \<open>bat\<close>, \<open>cmd\<close>, \<open>vbs\<close>, \<open>scr\<close>, \<open>dll\<close>, \<open>jar\<close>, \<open>apk\<close>, \<open>ps1\<close>, \<open>sh\<close>,
  \<open>aab\<close> means that the hidden-executable pattern matches the decoded string, and a
  verdict \<open>block\<close>/\<open>EXECUTABLE\<close> means that the extension is one of \<open>com\<close>, \<open>app\<close>, \<open>dmg\<close>,
  \<open>pkg\<close>, \<open>deb\<close>, \<open>rpm\<close>, \<open>img\<close>, \<open>bin\<close>, \<open>crx\<close>, \<open>xpi\<close>. Stated for every platform whose
  \<open>toLowerCase\<close> acts on ASCII strings as it should.
\<close>

theorem executable_only_for_clean_extensions:
  assumes "asciiLowering P"
    and "pathEndKept P (decodedOf P content) front pre raw post"
  shows "(extensionOf P (decodedOf P content) \<in> set hiddenTokens
            \<longrightarrow> hiddenExecutable (decodedOf P content))
       \<and> (returns (validateInputSafety P inputType (JString content) isVerifiedUser)
              ''block'' ''EXECUTABLE''
            \<longrightarrow> extensionOf P (decodedOf P content) \<in> set cleanOnlyExtensions)"
proof (intro conjI impI)
  assume "extensionOf P (decodedOf P content) \<in> set hiddenTokens"
  with assms show "hiddenExecutable (decodedOf P content)"
    by (rule hidden_from_extension)
next
  assume r: "returns (validateInputSafety P inputType (JString content) isVerifiedUser)
      ''block'' ''EXECUTABLE''"
  have "trim content \<noteq> []"
  proof
    assume "trim content = []"
    then have "validateInputSafety P inputType (JString content) isVerifiedUser = Inr emptyVerdict"
      by (simp add: validateInputSafety.simps)
    with r show False
      by (simp add: returns_Inr emptyVerdict_def)
  qed
  with r have "reasonCode (checkDecoded P inputType (decodedOf P content) isVerifiedUser)
      = js ''EXECUTABLE''"
    by (simp add: returns_nonblank)
  from checkDecoded_executable_only[OF this]
  have h: "\<not> hiddenExecutable (decodedOf P content)"
    and b: "extensionOf P (decodedOf P content) \<in> set blockedExtensions"
    by simp_all
  from h hidden_from_extension[OF assms] have "extensionOf P (decodedOf P content) \<notin> set hiddenTokens"
    by blast
  with b show "extensionOf P (decodedOf P content) \<in> set cleanOnlyExtensions"
    by (rule blocked_not_token)
qed

theorem executable_only_for_clean_extensions_witness:
  "asciiLowering stdPlatform
   \<and> pathEndKept stdPlatform (decodedOf stdPlatform (js ''https://example.com/a b.exe''))
        (js ''/a%20b'') (js ''https://example.com/a b'') (js ''.exe'') []
   \<and> extensionOf stdPlatform (decodedOf stdPlatform (js ''https://example.com/a b.exe''))
        \<in> set hiddenTokens
   \<and> hiddenExecutable (decodedOf stdPlatform (js ''https://example.com/a b.exe''))
   \<and> pathEndKept stdPlatform (decodedOf stdPlatform (js ''example.com/setup.dmg'')) [] [] [] []
   \<and> returns (validateInputSafety stdPlatform (js ''URL'') (JString (js ''example.com/setup.dmg'')) False)
        ''block'' ''EXECUTABLE''
   \<and> extensionOf stdPlatform (decodedOf stdPlatform (js ''example.com/setup.dmg''))
        \<in> set cleanOnlyExtensions"
proof -
  have k1: "pathEndKept stdPlatform (decodedOf stdPlatform (js ''https://example.com/a b.exe''))
        (js ''/a%20b'') (js ''https://example.com/a b'') (js ''.exe'') []"
    by (simp only: spaced_decoded spaced_kept)
  have e1: "extensionOf stdPlatform (decodedOf stdPlatform (js ''https://example.com/a b.exe''))
        \<in> set hiddenTokens"
    by (simp only: spaced_decoded spaced_extension)
  have k2: "pathEndKept stdPlatform (decodedOf stdPlatform (js ''example.com/setup.dmg''))
        [] [] [] []"
    by (simp only: dmg_decoded dmg_kept)
  have h1: "hiddenExecutable (decodedOf stdPlatform (js ''https://example.com/a b.exe''))"
    using executable_only_for_clean_extensions[OF asciiLowering_std k1] e1 by blast
  have c2: "extensionOf stdPlatform (decodedOf stdPlatform (js ''example.com/setup.dmg''))
        \<in> set cleanOnlyExtensions"
    using executable_only_for_clean_extensions[OF asciiLowering_std k2, of "js ''URL''" False]
      dmg_returns by blast
  show ?thesis
    using asciiLowering_std k1 e1 h1 k2 dmg_returns c2 by blast
qed

end
